theory Spec2Isabelle
  imports Complex_Main "HOL-Library.Char_ord" "HOL-Library.List_Lexorder" "HOL-Library.Multiset"
begin

section \<open>The autonomy kernel of \<open>app.py\<close>\<close>

text \<open>
  A shallow embedding of \<open>app.py\<close>: the dataclasses are records, the enums are datatypes,
  the modules are functions that take the interpreter's environment and return it updated,
  and a raised exception is the \<open>Inl\<close> branch of a sum.

  Conventions of the embedding:
  \<^item> every dataclass has the fields \<open>id\<close>, \<open>tick\<close> or \<open>ts\<close> in common with others, so each
    field carries a two-letter prefix of its class (\<open>pr_id\<close> is \<open>Proposal.id\<close>, \<open>de_tick\<close> is
    \<open>Decision.tick\<close>, \<open>ae_hash\<close> is \<open>AuditEntry.hash\<close>);
  \<^item> a Python \<open>float\<close> is a \<open>real\<close>, an \<open>int\<close> is an \<open>int\<close>, a \<open>str\<close> is a \<open>string\<close> holding its
    UTF-8 bytes; arithmetic on reals is exact, so the rounding of doubles is not modelled, and
    a comparison with a threshold can fall on the other side where the double lies within
    rounding of it;
  \<^item> a value of type \<open>Any\<close> is a \<open>pyval\<close>; a \<open>Dict[str, Any]\<close> is an association list in
    insertion order, with string keys as the annotation says;
  \<^item> what \<open>app.py\<close> imports from the standard library and does not define is a parameter:
    the pure functions are the fields of \<open>pylib\<close>, the sources of fresh values
    (\<open>uuid.uuid4\<close>, \<open>time.time\<close>) are streams in \<open>pyenv\<close>, consumed one value per call.
\<close>

subsection \<open>Python values\<close>

datatype pyval =
    PNone
  | PBool bool
  | PInt int
  | PFloat real
  | PStr string
  | PList "pyval list"
  | PTuple "pyval list"
  | PDict "(string \<times> pyval) list"
  | PObj string  \<comment> \<open>any other object, known by what \<open>str\<close> returns for it\<close>

type_synonym pydict = "(string \<times> pyval) list"

datatype pyexc = AttributeError | TypeError | OverflowError | StageFailure string

record pylib =
  float_repr :: "real \<Rightarrow> string"         \<comment> \<open>\<open>float.__repr__\<close>, also what an f-string prints\<close>
  str_escape :: "string \<Rightarrow> string"        \<comment> \<open>\<open>json.encoder.encode_basestring_ascii\<close>, quotes included\<close>
  sha256_hexdigest :: "string \<Rightarrow> string"  \<comment> \<open>\<open>hashlib.sha256(s.encode("utf-8")).hexdigest()\<close>\<close>
  round_1 :: "real \<Rightarrow> real"              \<comment> \<open>\<open>round(x, 1)\<close>\<close>

record 'm pyenv =
  uuid4_src :: "nat \<Rightarrow> string"  \<comment> \<open>the values the coming calls of \<open>str(uuid.uuid4())\<close> return\<close>
  time_src :: "nat \<Rightarrow> real"     \<comment> \<open>the values the coming calls of \<open>time.time()\<close> return\<close>
  mods :: 'm                     \<comment> \<open>the private state of the plugged-in modules\<close>

definition uuid4_str :: "'m pyenv \<Rightarrow> string \<times> 'm pyenv" where
  "uuid4_str env = (uuid4_src env 0, env\<lparr>uuid4_src := (\<lambda>n. uuid4_src env (Suc n))\<rparr>)"

definition time_time :: "'m pyenv \<Rightarrow> real \<times> 'm pyenv" where
  "time_time env = (time_src env 0, env\<lparr>time_src := (\<lambda>n. time_src env (Suc n))\<rparr>)"

subsection \<open>Core data models\<close>

type_synonym TickId = int

datatype RiskLevel = STABLE | ELEVATED | HIGH | CRITICAL

datatype ProposalStatus = PENDING | AUTO_APPROVED | REQUIRES_HUMAN | BLOCKED

record SensorFrame =
  sf_tick :: TickId
  sf_ts :: real
  sf_streams :: pydict

record WorldState =
  ws_tick :: TickId
  ws_ts :: real
  ws_facts :: pydict
  ws_health :: pydict

record RiskReport =
  rr_tick :: TickId
  rr_ts :: real
  rr_score :: real
  rr_level :: RiskLevel
  rr_clarity :: real
  rr_drivers :: pydict
  rr_notes :: string

record Intent =
  in_id :: string
  in_kind :: string
  in_priority :: int
  in_params :: pydict
  in_rationale :: string

record Proposal =
  pr_id :: string
  pr_tick :: TickId
  pr_source_intent :: string
  pr_action :: string
  pr_bounds :: pydict
  pr_expected_effect :: pydict
  pr_status :: ProposalStatus
  pr_governance_notes :: string

record Decision =
  de_id :: string
  de_proposal_id :: string
  de_tick :: TickId
  de_status :: ProposalStatus
  de_operator :: string
  de_comment :: string

record ActuationCommand =
  ac_id :: string
  ac_tick :: TickId
  ac_channel :: string
  ac_payload :: pydict

record AuditEntry =
  ae_id :: string
  ae_tick :: TickId
  ae_ts :: real
  ae_kind :: string
  ae_payload :: pydict
  ae_prev_hash :: string
  ae_hash :: string

record GovernanceConfig =
  max_auto_risk :: real
  hard_block_risk :: real
  require_human_for :: "string list"
  gate_open :: bool

definition GovernanceConfig_default :: GovernanceConfig where
  "GovernanceConfig_default =
     \<lparr>max_auto_risk = 40, hard_block_risk = 80,
      require_human_for = [''RETREAT'', ''EMERGENCY''], gate_open = False\<rparr>"

record TickResult =
  tr_tick :: TickId
  tr_sensor_frame :: SensorFrame
  tr_world :: WorldState
  tr_risk :: RiskReport
  tr_intents :: "Intent list"
  tr_proposals :: "Proposal list"
  tr_decisions :: "Decision list"
  tr_actuation :: "ActuationCommand list"
  tr_audit_entries :: "AuditEntry list"

subsection \<open>\<open>DefaultGovernanceModule\<close>\<close>

text \<open>The sign \<open>\<ge>\<close> of the comments, U+2265, as its three UTF-8 bytes.\<close>

definition ge_sign :: string where
  "ge_sign = [CHR 0xE2, CHR 0x89, CHR 0xA5]"

text \<open>
  The body of the loop up to the two assignments to \<open>p\<close>: the \<open>if\<close>/\<open>elif\<close> chain that sets
  \<open>status\<close> and \<open>comment\<close>.
\<close>

definition gate :: "pylib \<Rightarrow> RiskReport \<Rightarrow> GovernanceConfig \<Rightarrow> Proposal \<Rightarrow> ProposalStatus \<times> string" where
  "gate L risk config p =
     (if rr_score risk \<ge> hard_block_risk config then
        (BLOCKED, ''Blocked: risk '' @ float_repr L (rr_score risk) @ '' '' @ ge_sign @ '' hard stop'')
      else if \<not> gate_open config then
        (REQUIRES_HUMAN, ''Gate closed; human review required'')
      else if rr_score risk > max_auto_risk config
              \<or> pr_source_intent p \<in> set (require_human_for config) then
        (REQUIRES_HUMAN,
         ''Risk '' @ float_repr L (rr_score risk) @ '' or intent '' @ pr_source_intent p
           @ '' above auto threshold'')
      else
        (AUTO_APPROVED, ''Within auto-go envelope''))"

text \<open>
  \<open>DefaultGovernanceModule.run\<close>. The loop writes \<open>status\<close> and \<open>governance_notes\<close> into each
  proposal in place, so the model returns the proposals as the loop leaves them, beside the
  decisions.
\<close>

fun governance_run ::
  "pylib \<Rightarrow> Proposal list \<Rightarrow> WorldState \<Rightarrow> RiskReport \<Rightarrow> GovernanceConfig \<Rightarrow> 'm pyenv
     \<Rightarrow> (Decision list \<times> Proposal list) \<times> 'm pyenv" where
  "governance_run L [] world risk config env = (([], []), env)"
| "governance_run L (p # proposals) world risk config env =
     (let (status, comment) = gate L risk config p;
          p' = p\<lparr>pr_status := status, pr_governance_notes := comment\<rparr>;
          (did, env1) = uuid4_str env;
          d = \<lparr>de_id = did, de_proposal_id = pr_id p', de_tick = pr_tick p', de_status = status,
               de_operator = (if status = AUTO_APPROVED then ''AUTO'' else ''HUMAN?''),
               de_comment = comment\<rparr>;
          ((decisions, proposals'), env2) = governance_run L proposals world risk config env1
      in ((d # decisions, p' # proposals'), env2))"

subsection \<open>\<open>DefaultActuationModule\<close>\<close>

fun actuation_run ::
  "Decision list \<Rightarrow> WorldState \<Rightarrow> 'm pyenv \<Rightarrow> ActuationCommand list \<times> 'm pyenv" where
  "actuation_run [] world env = ([], env)"
| "actuation_run (d # decisions) world env =
     (if de_status d = AUTO_APPROVED then
        (let (cid, env1) = uuid4_str env;
             c = \<lparr>ac_id = cid, ac_tick = de_tick d, ac_channel = ''core'',
                  ac_payload = [(''decision_id'', PStr (de_id d)),
                                (''proposal_id'', PStr (de_proposal_id d)),
                                (''mode'', PStr ''EXECUTE'')]\<rparr>;
             (cmds, env2) = actuation_run decisions world env1
         in (c # cmds, env2))
      else actuation_run decisions world env)"

subsection \<open>The helper \<open>sha256\<close>\<close>

text \<open>
  \<open>json.dumps(data, sort_keys=True, default=str)\<close> with the default separators, on the values
  of \<open>pyval\<close>: a dictionary is written with its items sorted by key, a tuple is written as a
  list, and an object that JSON does not know goes through \<open>default=str\<close> and is written as
  the string \<open>str\<close> returns. How a float and a string are written is left to \<open>pylib\<close>.
  A \<open>pyval\<close> is a finite tree whose dictionaries have string keys, so the two ways in which
  \<open>json.dumps\<close> can raise (a circular structure, keys that cannot be sorted) do not arise.
\<close>

fun digits10 :: "nat \<Rightarrow> string" where
  "digits10 n = (if n < 10 then [''0123456789'' ! n]
                 else digits10 (n div 10) @ [''0123456789'' ! (n mod 10)])"

declare digits10.simps [simp del]

definition int_repr :: "int \<Rightarrow> string" where
  "int_repr i = (if i < 0 then CHR ''-'' # digits10 (nat (- i)) else digits10 (nat i))"

fun py_join :: "string \<Rightarrow> string list \<Rightarrow> string" where
  "py_join sep [] = []"
| "py_join sep [x] = x"
| "py_join sep (x # y # ys) = x @ sep @ py_join sep (y # ys)"

function json_dumps :: "pylib \<Rightarrow> pyval \<Rightarrow> string" where
  "json_dumps L PNone = ''null''"
| "json_dumps L (PBool b) = (if b then ''true'' else ''false'')"
| "json_dumps L (PInt i) = int_repr i"
| "json_dumps L (PFloat x) = float_repr L x"
| "json_dumps L (PStr s) = str_escape L s"
| "json_dumps L (PList vs) = ''['' @ py_join '', '' (map (json_dumps L) vs) @ '']''"
| "json_dumps L (PTuple vs) = ''['' @ py_join '', '' (map (json_dumps L) vs) @ '']''"
| "json_dumps L (PDict kvs) =
     ''{'' @ py_join '', ''
              (map (\<lambda>kv. str_escape L (fst kv) @ '': '' @ json_dumps L (snd kv)) (sort_key fst kvs))
       @ ''}''"
| "json_dumps L (PObj s) = str_escape L s"
  by pat_completeness auto

termination
proof (relation "measure (\<lambda>(L, v). size v)")
  show "wf (measure (\<lambda>(L, v). size v))" by simp
next
  fix L :: pylib and vs :: "pyval list" and x
  assume "x \<in> set vs"
  then have "size x < Suc (size_list size vs)"
    by (induction vs) auto
  then show "((L, x), (L, PList vs)) \<in> measure (\<lambda>(L, v). size v)" by simp
next
  fix L :: pylib and vs :: "pyval list" and x
  assume "x \<in> set vs"
  then have "size x < Suc (size_list size vs)"
    by (induction vs) auto
  then show "((L, x), (L, PTuple vs)) \<in> measure (\<lambda>(L, v). size v)" by simp
next
  fix L :: pylib and kvs :: "(string \<times> pyval) list" and x
  assume "x \<in> set (sort_key fst kvs)"
  then have "x \<in> set kvs" by simp
  moreover have "size (snd x) < size_prod (\<lambda>k. 0) size x"
    by (cases x) simp
  ultimately have "size (snd x) < size_list (size_prod (\<lambda>k. 0) size) kvs"
    by (rule size_list_estimation)
  then show "((L, snd x), (L, PDict kvs)) \<in> measure (\<lambda>(L, v). size v)"
    by (simp add: case_prod_unfold)
qed

definition sha256 :: "pylib \<Rightarrow> pydict \<Rightarrow> string" where
  "sha256 L data = sha256_hexdigest L (json_dumps L (PDict data))"

subsection \<open>The other default modules\<close>

text \<open>
  A module's \<open>run\<close> (or \<open>read\<close>) returns \<open>Inr\<close> its result or \<open>Inl\<close> the exception it raised,
  beside the environment as it leaves it.
\<close>

definition py_get :: "pydict \<Rightarrow> string \<Rightarrow> pyval \<Rightarrow> pyval" where
  "py_get d k dflt = (case map_of d k of None \<Rightarrow> dflt | Some v \<Rightarrow> v)"

text \<open>
  \<open>1.0 - x\<close> for an \<open>x\<close> of any type: only a number can be subtracted from a float. An
  \<open>int\<close> is converted to a double first, which raises when it rounds to \<open>2 ^ 1024\<close> or
  beyond.
\<close>

fun one_minus :: "pyval \<Rightarrow> pyexc + real" where
  "one_minus (PFloat x) = Inr (1 - x)"
| "one_minus (PInt i) =
     (if \<bar>i\<bar> < 2 ^ 1024 - 2 ^ 970 then Inr (1 - real_of_int i) else Inl OverflowError)"
| "one_minus (PBool b) = Inr (1 - (if b then 1 else 0))"
| "one_minus v = Inl TypeError"

definition rng_random :: "(nat \<Rightarrow> real) pyenv \<Rightarrow> real \<times> (nat \<Rightarrow> real) pyenv" where
  "rng_random env = (mods env 0, env\<lparr>mods := (\<lambda>n. mods env (Suc n))\<rparr>)"

text \<open>
  \<open>SyntheticSensorAdapter.read\<close>. The adapter's only state is its generator \<open>self.rng\<close>: the
  stream of the values its \<open>random()\<close> is going to return.
\<close>

definition sensor_read ::
  "TickId \<Rightarrow> WorldState option \<Rightarrow> (nat \<Rightarrow> real) pyenv
     \<Rightarrow> (pyexc + SensorFrame) \<times> (nat \<Rightarrow> real) pyenv" where
  "sensor_read tick prev_world env =
     (let (ts, env1) = time_time env;
          (r1, env2) = rng_random env1;
          base_load = 0.4 + 0.2 * r1;
          (r2, env3) = rng_random env2;
          env_stress = 0.3 + 0.3 * r2;
          (r3, env4) = rng_random env3;
          comms_ok = 0.7 + 0.3 * r3;
          streams = [(''ops'', PDict [(''system_load'', PFloat base_load),
                                      (''env_stress'', PFloat env_stress),
                                      (''comms_quality'', PFloat comms_ok)])]
      in (Inr \<lparr>sf_tick = tick, sf_ts = ts, sf_streams = streams\<rparr>, env4))"

text \<open>
  \<open>DefaultPerceptionModule.run\<close>. \<open>ops.get\<close> exists when \<open>ops\<close> is a dictionary; on any other
  value of \<open>pyval\<close> the attribute lookup raises.
\<close>

definition perception_run ::
  "SensorFrame \<Rightarrow> WorldState option \<Rightarrow> 'm pyenv \<Rightarrow> (pyexc + WorldState) \<times> 'm pyenv" where
  "perception_run frame prev_world env =
     (case py_get (sf_streams frame) ''ops'' (PDict []) of
        PDict ops \<Rightarrow>
          (case one_minus (py_get ops ''system_load'' (PFloat 0.5)) of
             Inl e \<Rightarrow> (Inl e, env)
           | Inr c \<Rightarrow>
               (case one_minus (py_get ops ''env_stress'' (PFloat 0.5)) of
                  Inl e \<Rightarrow> (Inl e, env)
                | Inr v \<Rightarrow>
                    (let health = [(''compute'', PFloat (max 0 c)),
                                   (''environment'', PFloat (max 0 v)),
                                   (''comms'', py_get ops ''comms_quality'' (PFloat 0.8))];
                         facts = [(''raw_ops'', PDict ops), (''alerts'', PList [])]
                     in (Inr \<lparr>ws_tick = sf_tick frame, ws_ts = sf_ts frame,
                              ws_facts = facts, ws_health = health\<rparr>, env))))
      | _ \<Rightarrow> (Inl AttributeError, env))"

definition RiskLevel_name :: "RiskLevel \<Rightarrow> string" where
  "RiskLevel_name l = (case l of STABLE \<Rightarrow> ''STABLE'' | ELEVATED \<Rightarrow> ''ELEVATED''
                       | HIGH \<Rightarrow> ''HIGH'' | CRITICAL \<Rightarrow> ''CRITICAL'')"

text \<open>\<open>DefaultRiskModule.run\<close>.\<close>

definition risk_run ::
  "pylib \<Rightarrow> WorldState \<Rightarrow> 'm pyenv \<Rightarrow> (pyexc + RiskReport) \<times> 'm pyenv" where
  "risk_run L world env =
     (let h = ws_health world in
      case one_minus (py_get h ''compute'' (PFloat 0.8)) of
        Inl e \<Rightarrow> (Inl e, env)
      | Inr compute_r \<Rightarrow>
      (case one_minus (py_get h ''environment'' (PFloat 0.8)) of
        Inl e \<Rightarrow> (Inl e, env)
      | Inr env_r \<Rightarrow>
      (case one_minus (py_get h ''comms'' (PFloat 0.8)) of
        Inl e \<Rightarrow> (Inl e, env)
      | Inr comms_r \<Rightarrow>
         (let score0 = 100 * (0.35 * compute_r + 0.40 * env_r + 0.25 * comms_r);
              score = max 0 (min 100 score0);
              level = (if score < 25 then STABLE
                       else if score < 50 then ELEVATED
                       else if score < 75 then HIGH
                       else CRITICAL);
              clarity = max 30 (100 - score * 0.6);
              drivers = [(''compute'', PFloat (round_1 L (compute_r * 100))),
                         (''environment'', PFloat (round_1 L (env_r * 100))),
                         (''comms'', PFloat (round_1 L (comms_r * 100)))]
          in (Inr \<lparr>rr_tick = ws_tick world, rr_ts = ws_ts world, rr_score = round_1 L score,
                   rr_level = level, rr_clarity = round_1 L clarity, rr_drivers = drivers,
                   rr_notes = ''synthetic risk blend''\<rparr>, env)))))"

text \<open>
  \<open>DefaultPolicyModule.run\<close>. \<open>sort(key=..., reverse=True)\<close> is stable: equal priorities keep
  the order in which the intents were appended.
\<close>

definition policy_run ::
  "pylib \<Rightarrow> WorldState \<Rightarrow> RiskReport \<Rightarrow> 'm pyenv \<Rightarrow> (pyexc + Intent list) \<times> 'm pyenv" where
  "policy_run L world risk env =
     (let (i1, env1) = uuid4_str env;
          intents1 = [\<lparr>in_id = i1, in_kind = ''CONTINUE'', in_priority = 10, in_params = [],
                       in_rationale = ''Baseline keep-going behavior''\<rparr>];
          (intents2, env2) =
            (if rr_level risk = HIGH \<or> rr_level risk = CRITICAL then
               (let (i2, e2) = uuid4_str env1
                in (intents1 @ [\<lparr>in_id = i2, in_kind = ''SLOW_ROLL'', in_priority = 50,
                                  in_params = [(''rate_multiplier'', PFloat 0.5)],
                                  in_rationale = ''Risk '' @ float_repr L (rr_score risk) @ '' ''
                                                   @ ge_sign @ '' HIGH; slow systems''\<rparr>], e2))
             else (intents1, env1));
          (intents3, env3) =
            (if rr_level risk = CRITICAL then
               (let (i3, e3) = uuid4_str env2
                in (intents2 @ [\<lparr>in_id = i3, in_kind = ''EMERGENCY'', in_priority = 90,
                                  in_params = [(''mode'', PStr ''HOLD'')],
                                  in_rationale = ''Critical risk; hold until operator review''\<rparr>], e3))
             else (intents2, env2))
      in (Inr (sort_key (\<lambda>i. - in_priority i) intents3), env3))"

text \<open>\<open>DefaultProposalModule.run\<close>.\<close>

fun proposal_loop :: "Intent list \<Rightarrow> WorldState \<Rightarrow> 'm pyenv \<Rightarrow> Proposal list \<times> 'm pyenv" where
  "proposal_loop [] world env = ([], env)"
| "proposal_loop (intent # intents) world env =
     (let (action, bounds) =
            (if in_kind intent = ''CONTINUE'' then
               (''Maintain current profile'', [(''max_delta'', PStr ''minimal'')])
             else if in_kind intent = ''SLOW_ROLL'' then
               (''Reduce operational rate'',
                [(''rate_multiplier'', py_get (in_params intent) ''rate_multiplier'' (PFloat 0.6))])
             else if in_kind intent = ''EMERGENCY'' then
               (''Enter safe hold'', [(''hold'', PBool True)])
             else (''Custom intent '' @ in_kind intent, []));
          (pid, env1) = uuid4_str env;
          p = \<lparr>pr_id = pid, pr_tick = ws_tick world, pr_source_intent = in_kind intent,
               pr_action = action, pr_bounds = bounds,
               pr_expected_effect = [(''risk_delta'', PInt (- 10)), (''clarity_delta'', PInt 5)],
               pr_status = PENDING, pr_governance_notes = []\<rparr>;
          (proposals, env2) = proposal_loop intents world env1
      in (p # proposals, env2))"

definition proposal_run ::
  "Intent list \<Rightarrow> WorldState \<Rightarrow> RiskReport \<Rightarrow> 'm pyenv \<Rightarrow> (pyexc + Proposal list) \<times> 'm pyenv" where
  "proposal_run intents world risk env =
     (let (proposals, env1) = proposal_loop intents world env in (Inr proposals, env1))"

text \<open>The governance and actuation modules as the kernel calls them: neither raises.\<close>

definition governance_module_run ::
  "pylib \<Rightarrow> Proposal list \<Rightarrow> WorldState \<Rightarrow> RiskReport \<Rightarrow> GovernanceConfig \<Rightarrow> 'm pyenv
     \<Rightarrow> (pyexc + Decision list \<times> Proposal list) \<times> 'm pyenv" where
  "governance_module_run L proposals world risk config env =
     (let (r, env1) = governance_run L proposals world risk config env in (Inr r, env1))"

definition actuation_module_run ::
  "Decision list \<Rightarrow> WorldState \<Rightarrow> 'm pyenv \<Rightarrow> (pyexc + ActuationCommand list) \<times> 'm pyenv" where
  "actuation_module_run decisions world env =
     (let (cmds, env1) = actuation_run decisions world env in (Inr cmds, env1))"

subsection \<open>\<open>AutonomyKernel\<close>\<close>

text \<open>
  The kernel object: the seven modules it was built with, the governance configuration, and
  the four attributes it owns. The governance module hands back the proposals beside the
  decisions, since the default one writes into them.
\<close>

record 'm AutonomyKernel =
  sensor :: "TickId \<Rightarrow> WorldState option \<Rightarrow> 'm pyenv \<Rightarrow> (pyexc + SensorFrame) \<times> 'm pyenv"
  perception :: "SensorFrame \<Rightarrow> WorldState option \<Rightarrow> 'm pyenv \<Rightarrow> (pyexc + WorldState) \<times> 'm pyenv"
  risk_module :: "WorldState \<Rightarrow> 'm pyenv \<Rightarrow> (pyexc + RiskReport) \<times> 'm pyenv"
  policy_module :: "WorldState \<Rightarrow> RiskReport \<Rightarrow> 'm pyenv \<Rightarrow> (pyexc + Intent list) \<times> 'm pyenv"
  proposal_module ::
    "Intent list \<Rightarrow> WorldState \<Rightarrow> RiskReport \<Rightarrow> 'm pyenv \<Rightarrow> (pyexc + Proposal list) \<times> 'm pyenv"
  governance_module ::
    "Proposal list \<Rightarrow> WorldState \<Rightarrow> RiskReport \<Rightarrow> GovernanceConfig \<Rightarrow> 'm pyenv
       \<Rightarrow> (pyexc + Decision list \<times> Proposal list) \<times> 'm pyenv"
  actuation_module ::
    "Decision list \<Rightarrow> WorldState \<Rightarrow> 'm pyenv \<Rightarrow> (pyexc + ActuationCommand list) \<times> 'm pyenv"
  gov_cfg :: GovernanceConfig
  tick_id :: TickId
  prev_world :: "WorldState option"
  audit_chain :: "AuditEntry list"
  prev_hash :: string

definition genesis_hash :: string where
  "genesis_hash = replicate 64 (CHR ''0'')"

text \<open>\<open>AutonomyKernel.__init__\<close>; \<open>governance_config or GovernanceConfig()\<close> is the \<open>case\<close>.\<close>

definition AutonomyKernel_init ::
  "(TickId \<Rightarrow> WorldState option \<Rightarrow> 'm pyenv \<Rightarrow> (pyexc + SensorFrame) \<times> 'm pyenv)
   \<Rightarrow> (SensorFrame \<Rightarrow> WorldState option \<Rightarrow> 'm pyenv \<Rightarrow> (pyexc + WorldState) \<times> 'm pyenv)
   \<Rightarrow> (WorldState \<Rightarrow> 'm pyenv \<Rightarrow> (pyexc + RiskReport) \<times> 'm pyenv)
   \<Rightarrow> (WorldState \<Rightarrow> RiskReport \<Rightarrow> 'm pyenv \<Rightarrow> (pyexc + Intent list) \<times> 'm pyenv)
   \<Rightarrow> (Intent list \<Rightarrow> WorldState \<Rightarrow> RiskReport \<Rightarrow> 'm pyenv \<Rightarrow> (pyexc + Proposal list) \<times> 'm pyenv)
   \<Rightarrow> (Proposal list \<Rightarrow> WorldState \<Rightarrow> RiskReport \<Rightarrow> GovernanceConfig \<Rightarrow> 'm pyenv
         \<Rightarrow> (pyexc + Decision list \<times> Proposal list) \<times> 'm pyenv)
   \<Rightarrow> (Decision list \<Rightarrow> WorldState \<Rightarrow> 'm pyenv \<Rightarrow> (pyexc + ActuationCommand list) \<times> 'm pyenv)
   \<Rightarrow> GovernanceConfig option \<Rightarrow> 'm AutonomyKernel" where
  "AutonomyKernel_init sensor' perception' risk' policy' proposals' governance' actuation'
       governance_config =
     \<lparr>sensor = sensor', perception = perception', risk_module = risk', policy_module = policy',
      proposal_module = proposals', governance_module = governance',
      actuation_module = actuation',
      gov_cfg = (case governance_config of None \<Rightarrow> GovernanceConfig_default | Some c \<Rightarrow> c),
      tick_id = 0, prev_world = None, audit_chain = [], prev_hash = genesis_hash\<rparr>"

text \<open>\<open>AutonomyKernel._audit\<close>.\<close>

definition audit ::
  "pylib \<Rightarrow> string \<Rightarrow> pydict \<Rightarrow> 'm AutonomyKernel \<Rightarrow> 'm pyenv
     \<Rightarrow> AuditEntry \<times> 'm AutonomyKernel \<times> 'm pyenv" where
  "audit L kind payload self env =
     (let (entry_id, env1) = uuid4_str env;
          (ts, env2) = time_time env1;
          raw = [(''id'', PStr entry_id), (''tick'', PInt (tick_id self)), (''ts'', PFloat ts),
                 (''kind'', PStr kind), (''payload'', PDict payload),
                 (''prev_hash'', PStr (prev_hash self))];
          h = sha256 L raw;
          entry = \<lparr>ae_id = entry_id, ae_tick = tick_id self, ae_ts = ts, ae_kind = kind,
                   ae_payload = payload, ae_prev_hash = prev_hash self, ae_hash = h\<rparr>
      in (entry, self\<lparr>prev_hash := h, audit_chain := audit_chain self @ [entry]\<rparr>, env2))"

text \<open>A list display of \<open>_audit\<close> calls, evaluated from left to right.\<close>

fun audit_each ::
  "pylib \<Rightarrow> (string \<times> pydict) list \<Rightarrow> 'm AutonomyKernel \<Rightarrow> 'm pyenv
     \<Rightarrow> AuditEntry list \<times> 'm AutonomyKernel \<times> 'm pyenv" where
  "audit_each L [] self env = ([], self, env)"
| "audit_each L ((kind, payload) # calls) self env =
     (let (entry, self1, env1) = audit L kind payload self env;
          (entries, self2, env2) = audit_each L calls self1 env1
      in (entry # entries, self2, env2))"

text \<open>
  The seven module calls of \<open>step\<close>, in the order of the source. The first exception ends
  them: the modules after it are not called.
\<close>

record StageOutputs =
  so_frame :: SensorFrame
  so_world :: WorldState
  so_risk :: RiskReport
  so_intents :: "Intent list"
  so_proposals :: "Proposal list"
  so_decisions :: "Decision list"
  so_actuation :: "ActuationCommand list"

definition stages :: "'m AutonomyKernel \<Rightarrow> 'm pyenv \<Rightarrow> (pyexc + StageOutputs) \<times> 'm pyenv" where
  "stages self env =
     (case sensor self (tick_id self) (prev_world self) env of
        (Inl e, env1) \<Rightarrow> (Inl e, env1)
      | (Inr frame, env1) \<Rightarrow>
     (case perception self frame (prev_world self) env1 of
        (Inl e, env2) \<Rightarrow> (Inl e, env2)
      | (Inr world, env2) \<Rightarrow>
     (case risk_module self world env2 of
        (Inl e, env3) \<Rightarrow> (Inl e, env3)
      | (Inr risk, env3) \<Rightarrow>
     (case policy_module self world risk env3 of
        (Inl e, env4) \<Rightarrow> (Inl e, env4)
      | (Inr intents, env4) \<Rightarrow>
     (case proposal_module self intents world risk env4 of
        (Inl e, env5) \<Rightarrow> (Inl e, env5)
      | (Inr proposals0, env5) \<Rightarrow>
     (case governance_module self proposals0 world risk (gov_cfg self) env5 of
        (Inl e, env6) \<Rightarrow> (Inl e, env6)
      | (Inr (decisions, proposals), env6) \<Rightarrow>
     (case actuation_module self decisions world env6 of
        (Inl e, env7) \<Rightarrow> (Inl e, env7)
      | (Inr actuation, env7) \<Rightarrow>
          (Inr \<lparr>so_frame = frame, so_world = world, so_risk = risk, so_intents = intents,
                so_proposals = proposals, so_decisions = decisions,
                so_actuation = actuation\<rparr>, env7))))))))"

text \<open>
  \<open>AutonomyKernel.step\<close>. An exception leaves \<open>step\<close> at the module that raised it, with the
  kernel as it is at that point; the result carries that kernel in both branches.
\<close>

definition step ::
  "pylib \<Rightarrow> 'm AutonomyKernel \<Rightarrow> 'm pyenv
     \<Rightarrow> (pyexc + TickResult) \<times> 'm AutonomyKernel \<times> 'm pyenv" where
  "step L self0 env =
     (let self = self0\<lparr>tick_id := tick_id self0 + 1\<rparr> in
      case stages self env of
        (Inl e, env1) \<Rightarrow> (Inl e, self, env1)
      | (Inr out, env1) \<Rightarrow>
          (let (audit_entries, self1, env2) =
                 audit_each L
                   [(''frame'', [(''streams'', PDict (sf_streams (so_frame out)))]),
                    (''risk'', [(''score'', PFloat (rr_score (so_risk out))),
                                (''level'', PStr (RiskLevel_name (rr_level (so_risk out))))]),
                    (''intents'', [(''count'', PInt (int (length (so_intents out))))]),
                    (''proposals'', [(''count'', PInt (int (length (so_proposals out))))]),
                    (''decisions'', [(''count'', PInt (int (length (so_decisions out))))]),
                    (''actuation'', [(''count'', PInt (int (length (so_actuation out))))])]
                   self env1;
               self2 = self1\<lparr>prev_world := Some (so_world out)\<rparr>
           in (Inr \<lparr>tr_tick = tick_id self2, tr_sensor_frame = so_frame out,
                    tr_world = so_world out, tr_risk = so_risk out,
                    tr_intents = so_intents out, tr_proposals = so_proposals out,
                    tr_decisions = so_decisions out, tr_actuation = so_actuation out,
                    tr_audit_entries = audit_entries\<rparr>, self2, env2)))"

text \<open>
  The kernels a program can reach through the class: built by \<open>__init__\<close>, then any number of
  calls of \<open>step\<close> (returning or raising) and of \<open>_audit\<close>, with the governance configuration
  replaced between calls.
\<close>

inductive reachable :: "pylib \<Rightarrow> 'm AutonomyKernel \<Rightarrow> bool" for L :: pylib where
  r_init: "reachable L (AutonomyKernel_init se pe ri po pr go ac cfg)"
| r_step: "reachable L self \<Longrightarrow> step L self env = (r, self', env') \<Longrightarrow> reachable L self'"
| r_audit: "reachable L self \<Longrightarrow> audit L kind payload self env = (entry, self', env')
            \<Longrightarrow> reachable L self'"
| r_config: "reachable L self \<Longrightarrow> reachable L (self\<lparr>gov_cfg := cfg\<rparr>)"

text \<open>The wiring of the \<open>__main__\<close> block: every module is the default one.\<close>

definition default_kernel ::
  "pylib \<Rightarrow> GovernanceConfig option \<Rightarrow> (nat \<Rightarrow> real) AutonomyKernel" where
  "default_kernel L cfg =
     AutonomyKernel_init sensor_read perception_run (risk_run L) (policy_run L) proposal_run
       (governance_module_run L) actuation_module_run cfg"

definition default_modules :: "pylib \<Rightarrow> (nat \<Rightarrow> real) AutonomyKernel \<Rightarrow> bool" where
  "default_modules L self \<longleftrightarrow>
     sensor self = sensor_read \<and> perception self = perception_run
     \<and> risk_module self = risk_run L \<and> policy_module self = policy_run L
     \<and> proposal_module self = proposal_run \<and> governance_module self = governance_module_run L
     \<and> actuation_module self = actuation_module_run"

subsection \<open>What the specification says, in its own words\<close>

text \<open>The transition rule of the governance gate, as the four numbered cases state it.\<close>

definition gate_precedence :: "real \<Rightarrow> GovernanceConfig \<Rightarrow> string \<Rightarrow> ProposalStatus" where
  "gate_precedence score config kind =
     (if score \<ge> hard_block_risk config then BLOCKED
      else if \<not> gate_open config then REQUIRES_HUMAN
      else if score > max_auto_risk config \<or> kind \<in> set (require_human_for config)
      then REQUIRES_HUMAN
      else AUTO_APPROVED)"

text \<open>The dictionary \<open>raw\<close> of \<open>_audit\<close>, read back from the fields an entry records.\<close>

definition entry_raw :: "AuditEntry \<Rightarrow> pydict" where
  "entry_raw e =
     [(''id'', PStr (ae_id e)), (''tick'', PInt (ae_tick e)), (''ts'', PFloat (ae_ts e)),
      (''kind'', PStr (ae_kind e)), (''payload'', PDict (ae_payload e)),
      (''prev_hash'', PStr (ae_prev_hash e))]"

text \<open>
  Modelled from the spec: \<open>app.py\<close> has no \<open>verify\<close>; the ledger it implements is the list
  \<open>audit_chain\<close> and the method \<open>_audit\<close>. This is the verification contract of the
  specification: recompute each entry's hash from its recorded fields, confirm that it equals
  the stored hash, and that the stored previous hash equals the stored hash of the entry
  before (the genesis sentinel for the first entry).
\<close>

fun verify_from :: "pylib \<Rightarrow> string \<Rightarrow> AuditEntry list \<Rightarrow> bool" where
  "verify_from L prev [] = True"
| "verify_from L prev (e # entries) =
     (sha256 L (entry_raw e) = ae_hash e \<and> ae_prev_hash e = prev
      \<and> verify_from L (ae_hash e) entries)"

definition verify :: "pylib \<Rightarrow> AuditEntry list \<Rightarrow> bool" where
  "verify L entries = verify_from L genesis_hash entries"

subsection \<open>Notions used by the statements\<close>

text \<open>A chain that continues from the hash \<open>prev\<close>: each entry names the hash before it.\<close>

fun linked :: "string \<Rightarrow> AuditEntry list \<Rightarrow> bool" where
  "linked prev [] = True"
| "linked prev (e # es) = (ae_prev_hash e = prev \<and> linked (ae_hash e) es)"

definition last_hash :: "string \<Rightarrow> AuditEntry list \<Rightarrow> string" where
  "last_hash prev es = (if es = [] then prev else ae_hash (last es))"

text \<open>The invariant of the ledger that every reachable kernel satisfies.\<close>

definition ledger_inv :: "pylib \<Rightarrow> 'm AutonomyKernel \<Rightarrow> bool" where
  "ledger_inv L self \<longleftrightarrow>
     linked genesis_hash (audit_chain self)
     \<and> (\<forall>e \<in> set (audit_chain self).
           ae_hash e = sha256 L (entry_raw e) \<and> ae_tick e \<le> tick_id self)
     \<and> prev_hash self = last_hash genesis_hash (audit_chain self)
     \<and> 0 \<le> tick_id self"

text \<open>
  Two values with the same content whatever the order in which the keys of their
  dictionaries were inserted, at every depth: what Python's \<open>==\<close> compares on dictionaries
  with keys that are pairwise distinct. Lists and tuples keep their order.
\<close>

inductive same_content :: "pyval \<Rightarrow> pyval \<Rightarrow> bool" where
  sc_refl: "same_content v v"
| sc_list: "list_all2 same_content vs ws \<Longrightarrow> same_content (PList vs) (PList ws)"
| sc_tuple: "list_all2 same_content vs ws \<Longrightarrow> same_content (PTuple vs) (PTuple ws)"
| sc_dict: "list_all2 (\<lambda>x z. fst x = fst z \<and> same_content (snd x) (snd z)) xs zs
            \<Longrightarrow> mset ys = mset zs \<Longrightarrow> distinct (map fst xs)
            \<Longrightarrow> same_content (PDict xs) (PDict ys)"

text \<open>A decision without its freshly drawn \<open>id\<close>.\<close>

definition decision_content ::
  "Decision \<Rightarrow> string \<times> TickId \<times> ProposalStatus \<times> string \<times> string" where
  "decision_content d = (de_proposal_id d, de_tick d, de_status d, de_operator d, de_comment d)"

definition auto_payload :: "Decision \<Rightarrow> pydict" where
  "auto_payload d = [(''decision_id'', PStr (de_id d)), (''proposal_id'', PStr (de_proposal_id d)),
                     (''mode'', PStr ''EXECUTE'')]"

definition step_audit_kinds :: "string list" where
  "step_audit_kinds = [''frame'', ''risk'', ''intents'', ''proposals'', ''decisions'', ''actuation'']"

subsection \<open>Concrete instances\<close>

text \<open>
  An instance of the library parameters and of the environment, on which the definitions
  compute. The theorems below hold for every library and every environment; these instances
  serve the closed statements that apply them to an input.
\<close>

definition sample_lib :: pylib where
  "sample_lib = \<lparr>float_repr = (\<lambda>x. int_repr \<lfloor>x\<rfloor> @ ''.0''),
                  str_escape = (\<lambda>s. CHR 0x22 # s @ [CHR 0x22]),
                  sha256_hexdigest = (\<lambda>s. digits10 (length s)),
                  round_1 = (\<lambda>x. of_int \<lfloor>x * 10 + 1 / 2\<rfloor> / 10)\<rparr>"

definition sample_env :: "(nat \<Rightarrow> real) pyenv" where
  "sample_env = \<lparr>uuid4_src = (\<lambda>n. ''id-'' @ digits10 n), time_src = (\<lambda>n. 1000 + real n),
                  mods = (\<lambda>n. 1 / 2)\<rparr>"

definition sample_world :: WorldState where
  "sample_world = \<lparr>ws_tick = 7, ws_ts = 1000, ws_facts = [], ws_health = []\<rparr>"

definition sample_risk :: "real \<Rightarrow> RiskReport" where
  "sample_risk score = \<lparr>rr_tick = 7, rr_ts = 1000, rr_score = score, rr_level = ELEVATED,
                         rr_clarity = 82, rr_drivers = [], rr_notes = ''synthetic risk blend''\<rparr>"

definition sample_proposal :: "string \<Rightarrow> string \<Rightarrow> Proposal" where
  "sample_proposal pid kind =
     \<lparr>pr_id = pid, pr_tick = 7, pr_source_intent = kind, pr_action = ''Maintain current profile'',
      pr_bounds = [], pr_expected_effect = [], pr_status = PENDING, pr_governance_notes = []\<rparr>"

text \<open>The configuration of the \<open>__main__\<close> block.\<close>

definition main_cfg :: GovernanceConfig where
  "main_cfg = \<lparr>max_auto_risk = 45, hard_block_risk = 85,
                require_human_for = [''RETREAT'', ''EMERGENCY''], gate_open = True\<rparr>"

text \<open>A sensor adapter that raises on tick 2 and reads an empty frame on every other tick.\<close>

definition flaky_sensor ::
  "TickId \<Rightarrow> WorldState option \<Rightarrow> (nat \<Rightarrow> real) pyenv
     \<Rightarrow> (pyexc + SensorFrame) \<times> (nat \<Rightarrow> real) pyenv" where
  "flaky_sensor tick prev env =
     (if tick = 2 then (Inl (StageFailure ''sensor offline''), env)
      else (Inr \<lparr>sf_tick = tick, sf_ts = 0, sf_streams = []\<rparr>, env))"

definition flaky_kernel :: "(nat \<Rightarrow> real) AutonomyKernel" where
  "flaky_kernel =
     AutonomyKernel_init flaky_sensor perception_run (risk_run sample_lib) (policy_run sample_lib)
       proposal_run (governance_module_run sample_lib) actuation_module_run (Some main_cfg)"

text \<open>A sensor adapter that stamps every frame with tick 0.\<close>

definition stale_sensor ::
  "TickId \<Rightarrow> WorldState option \<Rightarrow> (nat \<Rightarrow> real) pyenv
     \<Rightarrow> (pyexc + SensorFrame) \<times> (nat \<Rightarrow> real) pyenv" where
  "stale_sensor tick prev env = (Inr \<lparr>sf_tick = 0, sf_ts = 0, sf_streams = []\<rparr>, env)"

definition stale_kernel :: "(nat \<Rightarrow> real) AutonomyKernel" where
  "stale_kernel =
     AutonomyKernel_init stale_sensor perception_run (risk_run sample_lib) (policy_run sample_lib)
       proposal_run (governance_module_run sample_lib) actuation_module_run (Some main_cfg)"

text \<open>Two proposals at risk 30 under the \<open>__main__\<close> configuration, and their governance run.\<close>

definition sample_proposals :: "Proposal list" where
  "sample_proposals = [sample_proposal ''p-1'' ''CONTINUE'', sample_proposal ''p-2'' ''RETREAT'']"

definition sample_governance ::
  "(Decision list \<times> Proposal list) \<times> (nat \<Rightarrow> real) pyenv" where
  "sample_governance =
     governance_run sample_lib sample_proposals sample_world (sample_risk 30) main_cfg sample_env"

definition sample_actuation :: "ActuationCommand list \<times> (nat \<Rightarrow> real) pyenv" where
  "sample_actuation =
     actuation_run (fst (fst sample_governance)) sample_world (snd sample_governance)"

text \<open>Three calls of \<open>step\<close> in a row on the kernel whose sensor raises on tick 2.\<close>

definition flaky_run1 ::
  "(pyexc + TickResult) \<times> (nat \<Rightarrow> real) AutonomyKernel \<times> (nat \<Rightarrow> real) pyenv" where
  "flaky_run1 = step sample_lib flaky_kernel sample_env"

definition flaky_run2 ::
  "(pyexc + TickResult) \<times> (nat \<Rightarrow> real) AutonomyKernel \<times> (nat \<Rightarrow> real) pyenv" where
  "flaky_run2 = step sample_lib (fst (snd flaky_run1)) (snd (snd flaky_run1))"

definition flaky_run3 ::
  "(pyexc + TickResult) \<times> (nat \<Rightarrow> real) AutonomyKernel \<times> (nat \<Rightarrow> real) pyenv" where
  "flaky_run3 = step sample_lib (fst (snd flaky_run2)) (snd (snd flaky_run2))"

text \<open>
  The first two ticks of the default wiring, and the first tick of the kernel with the stale
  sensor.
\<close>

definition default_run1 ::
  "(pyexc + TickResult) \<times> (nat \<Rightarrow> real) AutonomyKernel \<times> (nat \<Rightarrow> real) pyenv" where
  "default_run1 = step sample_lib (default_kernel sample_lib (Some main_cfg)) sample_env"

definition default_run2 ::
  "(pyexc + TickResult) \<times> (nat \<Rightarrow> real) AutonomyKernel \<times> (nat \<Rightarrow> real) pyenv" where
  "default_run2 = step sample_lib (fst (snd default_run1)) (snd (snd default_run1))"

definition stale_run1 ::
  "(pyexc + TickResult) \<times> (nat \<Rightarrow> real) AutonomyKernel \<times> (nat \<Rightarrow> real) pyenv" where
  "stale_run1 = step sample_lib stale_kernel sample_env"

text \<open>
  One entry appended to a fresh ledger, and the same chain after the list in its payload
  has been replaced by the tuple of the same items.
\<close>

definition listed_payload :: pydict where
  "listed_payload = [(''streams'', PDict [(''levels'', PList [PInt 1, PInt 2])])]"

definition tupled_payload :: pydict where
  "tupled_payload = [(''streams'', PDict [(''levels'', PTuple [PInt 1, PInt 2])])]"

definition appended_chain :: "AuditEntry list" where
  "appended_chain =
     audit_chain (fst (snd (audit sample_lib ''frame'' listed_payload
                              (default_kernel sample_lib None) sample_env)))"

definition tampered_chain :: "AuditEntry list" where
  "tampered_chain = appended_chain[0 := (appended_chain ! 0)\<lparr>ae_payload := tupled_payload\<rparr>]"

text \<open>A kernel built like \<open>flaky_kernel\<close>, at any tick.\<close>

definition flaky_modules :: "(nat \<Rightarrow> real) AutonomyKernel \<Rightarrow> bool" where
  "flaky_modules self \<longleftrightarrow>
     sensor self = flaky_sensor \<and> perception self = perception_run
     \<and> risk_module self = risk_run sample_lib \<and> policy_module self = policy_run sample_lib
     \<and> proposal_module self = proposal_run
     \<and> governance_module self = governance_module_run sample_lib
     \<and> actuation_module self = actuation_module_run"

text \<open>
  A sensor that reads an empty frame, and for each of the seven modules the kernel in which
  that module raises and the ones before it are the default ones.
\<close>

definition quiet_sensor ::
  "TickId \<Rightarrow> WorldState option \<Rightarrow> (nat \<Rightarrow> real) pyenv
     \<Rightarrow> (pyexc + SensorFrame) \<times> (nat \<Rightarrow> real) pyenv" where
  "quiet_sensor tick prev env = (Inr \<lparr>sf_tick = tick, sf_ts = 0, sf_streams = []\<rparr>, env)"

definition failing_at :: "nat \<Rightarrow> (nat \<Rightarrow> real) AutonomyKernel" where
  "failing_at n =
     AutonomyKernel_init
       (if n = 1 then (\<lambda>tick prev env. (Inl (StageFailure ''sensor''), env)) else quiet_sensor)
       (if n = 2 then (\<lambda>frame prev env. (Inl (StageFailure ''perception''), env))
        else perception_run)
       (if n = 3 then (\<lambda>world env. (Inl (StageFailure ''risk''), env)) else risk_run sample_lib)
       (if n = 4 then (\<lambda>world risk env. (Inl (StageFailure ''policy''), env))
        else policy_run sample_lib)
       (if n = 5 then (\<lambda>intents world risk env. (Inl (StageFailure ''proposals''), env))
        else proposal_run)
       (if n = 6 then (\<lambda>proposals world risk config env. (Inl (StageFailure ''governance''), env))
        else governance_module_run sample_lib)
       (if n = 7 then (\<lambda>decisions world env. (Inl (StageFailure ''actuation''), env))
        else actuation_module_run)
       (Some main_cfg)"

text \<open>
  A payload with nested dictionaries, the same payload with the keys inserted in another
  order at every level, and the chain that holds the first.
\<close>

definition keyed_payload :: pydict where
  "keyed_payload =
     [(''streams'', PDict [(''ops'', PDict [(''system_load'', PInt 4), (''env_stress'', PInt 3),
                                            (''comms_quality'', PInt 7)]),
                           (''alerts'', PList [PStr ''a'', PNone])])]"

definition rekeyed_payload :: pydict where
  "rekeyed_payload =
     [(''streams'', PDict [(''alerts'', PList [PStr ''a'', PNone]),
                           (''ops'', PDict [(''comms_quality'', PInt 7), (''system_load'', PInt 4),
                                            (''env_stress'', PInt 3)])])]"

definition keyed_chain :: "AuditEntry list" where
  "keyed_chain =
     audit_chain (fst (snd (audit sample_lib ''frame'' keyed_payload
                              (default_kernel sample_lib None) sample_env)))"

text \<open>
  The library with a digest that has no collisions (each text is its own digest), and one
  entry appended under it.
\<close>

definition plain_lib :: pylib where
  "plain_lib = sample_lib\<lparr>sha256_hexdigest := (\<lambda>s. s)\<rparr>"

definition plain_chain :: "AuditEntry list" where
  "plain_chain =
     audit_chain (fst (snd (audit plain_lib ''frame'' listed_payload
                              (default_kernel plain_lib None) sample_env)))"

section \<open>The governance gate\<close>

lemma gate_status:
  "fst (gate L risk config p) = gate_precedence (rr_score risk) config (pr_source_intent p)"
  by (simp add: gate_def gate_precedence_def)

lemma gate_not_pending: "fst (gate L risk config p) \<noteq> PENDING"
  by (simp add: gate_def)

text \<open>
  The loop, closed: the \<open>i\<close>-th decision takes the \<open>i\<close>-th value of the identifier stream and
  everything else from the \<open>i\<close>-th proposal.
\<close>

lemma governance_run_decisions:
  "fst (fst (governance_run L ps world risk config env)) =
     map (\<lambda>(p, i). \<lparr>de_id = uuid4_src env i, de_proposal_id = pr_id p, de_tick = pr_tick p,
                    de_status = fst (gate L risk config p),
                    de_operator = (if fst (gate L risk config p) = AUTO_APPROVED
                                   then ''AUTO'' else ''HUMAN?''),
                    de_comment = snd (gate L risk config p)\<rparr>) (zip ps [0..<length ps])"
proof (induction ps arbitrary: env)
  case Nil
  show ?case by simp
next
  case (Cons p ps)
  have z: "zip (p # ps) [0..<length (p # ps)] =
             (p, 0) # map (\<lambda>(q, i). (q, Suc i)) (zip ps [0..<length ps])"
    by (simp add: upt_conv_Cons zip_map2 map_Suc_upt[symmetric] del: upt_Suc)
  show ?case
    unfolding z
    by (simp add: split_def Let_def Cons.IH uuid4_str_def o_def)
qed

lemma governance_run_proposals:
  "snd (fst (governance_run L ps world risk config env)) =
     map (\<lambda>p. p\<lparr>pr_status := fst (gate L risk config p),
                 pr_governance_notes := snd (gate L risk config p)\<rparr>) ps"
  by (induction ps arbitrary: env) (simp_all add: split_def Let_def)

lemma governance_run_env:
  "snd (governance_run L ps world risk config env) =
     env\<lparr>uuid4_src := (\<lambda>n. uuid4_src env (n + length ps))\<rparr>"
  by (induction ps arbitrary: env) (simp_all add: split_def Let_def uuid4_str_def)

lemma governance_run_length:
  "length (fst (fst (governance_run L ps world risk config env))) = length ps"
  by (simp add: governance_run_decisions)

lemma governance_run_ids:
  "map de_id (fst (fst (governance_run L ps world risk config env))) =
     map (uuid4_src env) [0..<length ps]"
  unfolding governance_run_decisions
  by (induction ps rule: rev_induct) (simp_all add: o_def split_def)

lemma governance_run_proposal_ids:
  "map de_proposal_id (fst (fst (governance_run L ps world risk config env))) = map pr_id ps"
  unfolding governance_run_decisions
  by (induction ps rule: rev_induct) (simp_all add: o_def split_def)

lemma governance_run_statuses:
  "map de_status (fst (fst (governance_run L ps world risk config env))) =
     map (\<lambda>p. fst (gate L risk config p)) ps"
  unfolding governance_run_decisions
  by (induction ps rule: rev_induct) (simp_all add: o_def split_def)

lemma governance_run_comments:
  "map de_comment (fst (fst (governance_run L ps world risk config env))) =
     map (\<lambda>p. snd (gate L risk config p)) ps"
  unfolding governance_run_decisions
  by (induction ps rule: rev_induct) (simp_all add: o_def split_def)

lemma governance_run_content:
  "map decision_content (fst (fst (governance_run L ps world risk config env))) =
     map (\<lambda>p. (pr_id p, pr_tick p, fst (gate L risk config p),
                (if fst (gate L risk config p) = AUTO_APPROVED then ''AUTO'' else ''HUMAN?''),
                snd (gate L risk config p))) ps"
  unfolding governance_run_decisions
  by (induction ps rule: rev_induct) (simp_all add: o_def split_def decision_content_def)

lemma actuation_run_cmds:
  "map (\<lambda>c. (ac_tick c, ac_channel c, ac_payload c)) (fst (actuation_run ds world env)) =
     map (\<lambda>d. (de_tick d, ''core'', auto_payload d))
         (filter (\<lambda>d. de_status d = AUTO_APPROVED) ds)"
  by (induction ds arbitrary: env) (simp_all add: split_def Let_def auto_payload_def)

lemma count_one:
  assumes "distinct (map f xs)" "x \<in> set xs"
  shows "length (filter (\<lambda>y. f y = f x) xs) = 1"
  using assms
  by (induction xs) (auto simp: filter_empty_conv image_iff)

lemma sample_governance_statuses:
  "map de_status (fst (fst sample_governance)) = [AUTO_APPROVED, REQUIRES_HUMAN]"
  unfolding sample_governance_def governance_run_statuses
  by (simp add: sample_proposals_def gate_def sample_risk_def main_cfg_def sample_proposal_def)

text \<open>
  C1. The status of every decision is the one the strict precedence of the specification
  gives for the risk score, the configuration and the proposal's source intent kind: BLOCKED
  at or above the hard-block threshold, whatever the gate switch and the intent kind; else
  REQUIRES_HUMAN when the gate is closed; else REQUIRES_HUMAN when the score exceeds the
  auto-approval ceiling or the intent kind is in the forced-review list; else AUTO_APPROVED.
\<close>

theorem governance_gate_precedence:
  "map de_status (fst (fst (governance_run L ps world risk config env))) =
     map (\<lambda>p. gate_precedence (rr_score risk) config (pr_source_intent p)) ps"
  by (simp add: governance_run_statuses gate_status)

theorem governance_gate_precedence_witness:
  "map de_status (fst (fst (governance_run sample_lib sample_proposals sample_world
                              (sample_risk 30) main_cfg sample_env)))
     = [AUTO_APPROVED, REQUIRES_HUMAN]
   \<and> map de_status (fst (fst (governance_run sample_lib sample_proposals sample_world
                              (sample_risk 90) main_cfg sample_env)))
     = [BLOCKED, BLOCKED]
   \<and> map de_status (fst (fst (governance_run sample_lib sample_proposals sample_world
                              (sample_risk 30) (main_cfg\<lparr>gate_open := False\<rparr>) sample_env)))
     = [REQUIRES_HUMAN, REQUIRES_HUMAN]"
  unfolding governance_gate_precedence
  by (simp add: gate_precedence_def sample_risk_def main_cfg_def sample_proposals_def
        sample_proposal_def)

section \<open>The ledger and the orchestrator\<close>

lemma last_hash_append: "last_hash prev (es @ fs) = last_hash (last_hash prev es) fs"
  by (simp add: last_hash_def)

lemma linked_append: "linked prev (es @ fs) \<longleftrightarrow> linked prev es \<and> linked (last_hash prev es) fs"
  by (induction es arbitrary: prev) (auto simp: last_hash_def)

lemma audit_eq:
  assumes "audit L kind payload self env = (e, self', env')"
  shows "self' = self\<lparr>prev_hash := ae_hash e, audit_chain := audit_chain self @ [e]\<rparr>"
    and "ae_tick e = tick_id self" and "ae_kind e = kind" and "ae_payload e = payload"
    and "ae_prev_hash e = prev_hash self" and "ae_hash e = sha256 L (entry_raw e)"
  using assms
  by (auto simp: audit_def Let_def split_def entry_raw_def uuid4_str_def time_time_def)

lemma audit_each_eq:
  assumes "audit_each L calls self env = (es, self', env')"
  shows "self' = self\<lparr>prev_hash := last_hash (prev_hash self) es,
                       audit_chain := audit_chain self @ es\<rparr>
       \<and> map ae_kind es = map fst calls \<and> map ae_payload es = map snd calls
       \<and> (\<forall>e \<in> set es. ae_tick e = tick_id self \<and> ae_hash e = sha256 L (entry_raw e))
       \<and> linked (prev_hash self) es"
  using assms
proof (induction calls arbitrary: self env es self' env')
  case Nil
  then show ?case by (simp add: last_hash_def)
next
  case (Cons c calls)
  obtain kind payload where c: "c = (kind, payload)" by (cases c)
  obtain e s1 e1 where a: "audit L kind payload self env = (e, s1, e1)"
    by (cases "audit L kind payload self env")
  obtain es1 s2 e2 where r: "audit_each L calls s1 e1 = (es1, s2, e2)"
    by (cases "audit_each L calls s1 e1")
  have es: "es = e # es1" and s': "self' = s2"
    using Cons.prems by (simp_all add: c a r)
  note A = audit_eq [OF a]
  note IH = Cons.IH [OF r]
  have s1: "prev_hash s1 = ae_hash e" "audit_chain s1 = audit_chain self @ [e]" "tick_id s1 = tick_id self"
    by (simp_all add: A(1))
  have "self' = self\<lparr>prev_hash := last_hash (prev_hash self) es, audit_chain := audit_chain self @ es\<rparr>"
    using IH s1 unfolding s' es A(1) by (simp add: last_hash_def)
  moreover have "map ae_kind es = map fst (c # calls)" "map ae_payload es = map snd (c # calls)"
    using IH A by (simp_all add: es c)
  moreover have "\<forall>e \<in> set es. ae_tick e = tick_id self \<and> ae_hash e = sha256 L (entry_raw e)"
    using IH A s1 by (simp add: es)
  moreover have "linked (prev_hash self) es"
    using IH A s1 by (simp add: es)
  ultimately show ?case by blast
qed

lemma step_Inl:
  assumes "step L self env = (Inl e, self', env')"
  shows "self' = self\<lparr>tick_id := tick_id self + 1\<rparr>"
    and "stages (self\<lparr>tick_id := tick_id self + 1\<rparr>) env = (Inl e, env')"
proof -
  let ?s = "self\<lparr>tick_id := tick_id self + 1\<rparr>"
  obtain r env1 where st: "stages ?s env = (r, env1)" by (cases "stages ?s env")
  have "r = Inl e \<and> self' = ?s \<and> env1 = env'"
    using assms st by (cases r) (auto simp: step_def Let_def split_def)
  then show "self' = ?s" and "stages ?s env = (Inl e, env')"
    using st by simp_all
qed

lemma step_Inr:
  assumes "step L self env = (Inr tr, self', env')"
  obtains out env1 where
    "stages (self\<lparr>tick_id := tick_id self + 1\<rparr>) env = (Inr out, env1)"
    "tr = \<lparr>tr_tick = tick_id self + 1, tr_sensor_frame = so_frame out,
                    tr_world = so_world out, tr_risk = so_risk out,
                    tr_intents = so_intents out, tr_proposals = so_proposals out,
                    tr_decisions = so_decisions out, tr_actuation = so_actuation out,
                    tr_audit_entries = tr_audit_entries tr\<rparr>"
    "self' = self\<lparr>tick_id := tick_id self + 1,
                   prev_hash := last_hash (prev_hash self) (tr_audit_entries tr),
                   audit_chain := audit_chain self @ tr_audit_entries tr,
                   prev_world := Some (so_world out)\<rparr>"
    "map ae_kind (tr_audit_entries tr) = step_audit_kinds"
    "map ae_payload (tr_audit_entries tr) =
       [[(''streams'', PDict (sf_streams (so_frame out)))],
        [(''score'', PFloat (rr_score (so_risk out))),
         (''level'', PStr (RiskLevel_name (rr_level (so_risk out))))],
        [(''count'', PInt (int (length (so_intents out))))],
        [(''count'', PInt (int (length (so_proposals out))))],
        [(''count'', PInt (int (length (so_decisions out))))],
        [(''count'', PInt (int (length (so_actuation out))))]]"
    "\<forall>e \<in> set (tr_audit_entries tr). ae_tick e = tick_id self + 1 \<and> ae_hash e = sha256 L (entry_raw e)"
    "linked (prev_hash self) (tr_audit_entries tr)"
proof -
  let ?s = "self\<lparr>tick_id := tick_id self + 1\<rparr>"
  obtain r env1 where st: "stages ?s env = (r, env1)" by (cases "stages ?s env")
  obtain out where r: "r = Inr out"
    using assms st by (cases r) (auto simp: step_def Let_def)
  let ?calls = "[(''frame'', [(''streams'', PDict (sf_streams (so_frame out)))]),
                    (''risk'', [(''score'', PFloat (rr_score (so_risk out))),
                                (''level'', PStr (RiskLevel_name (rr_level (so_risk out))))]),
                    (''intents'', [(''count'', PInt (int (length (so_intents out))))]),
                    (''proposals'', [(''count'', PInt (int (length (so_proposals out))))]),
                    (''decisions'', [(''count'', PInt (int (length (so_decisions out))))]),
                    (''actuation'', [(''count'', PInt (int (length (so_actuation out))))])]"
  obtain es s1 e2 where ae: "audit_each L ?calls ?s env1 = (es, s1, e2)"
    by (cases "audit_each L ?calls ?s env1")
  note E = audit_each_eq [OF ae]
  have tr: "tr = \<lparr>tr_tick = tick_id self + 1, tr_sensor_frame = so_frame out,
                    tr_world = so_world out, tr_risk = so_risk out,
                    tr_intents = so_intents out, tr_proposals = so_proposals out,
                    tr_decisions = so_decisions out, tr_actuation = so_actuation out,
                    tr_audit_entries = es\<rparr>"
    and s': "self' = s1\<lparr>prev_world := Some (so_world out)\<rparr>"
  proof -
    have raw: "tr = \<lparr>tr_tick = tick_id s1, tr_sensor_frame = so_frame out,
                    tr_world = so_world out, tr_risk = so_risk out,
                    tr_intents = so_intents out, tr_proposals = so_proposals out,
                    tr_decisions = so_decisions out, tr_actuation = so_actuation out,
                    tr_audit_entries = es\<rparr> \<and> self' = s1\<lparr>prev_world := Some (so_world out)\<rparr>"
      using assms by (simp add: step_def Let_def st r ae del: audit_each.simps)
    have "tick_id s1 = tick_id self + 1" using E by simp
    with raw show "tr = \<lparr>tr_tick = tick_id self + 1, tr_sensor_frame = so_frame out,
                    tr_world = so_world out, tr_risk = so_risk out,
                    tr_intents = so_intents out, tr_proposals = so_proposals out,
                    tr_decisions = so_decisions out, tr_actuation = so_actuation out,
                    tr_audit_entries = es\<rparr>"
      and "self' = s1\<lparr>prev_world := Some (so_world out)\<rparr>" by simp_all
  qed
  have es: "tr_audit_entries tr = es" by (simp add: tr)
  show thesis
  proof (rule that [of out env1])
    show "stages ?s env = (Inr out, env1)" using st r by simp
    show "tr = \<lparr>tr_tick = tick_id self + 1, tr_sensor_frame = so_frame out,
                    tr_world = so_world out, tr_risk = so_risk out,
                    tr_intents = so_intents out, tr_proposals = so_proposals out,
                    tr_decisions = so_decisions out, tr_actuation = so_actuation out,
                    tr_audit_entries = tr_audit_entries tr\<rparr>"
      unfolding es by (rule tr)
    show "self' = self\<lparr>tick_id := tick_id self + 1,
                   prev_hash := last_hash (prev_hash self) (tr_audit_entries tr),
                   audit_chain := audit_chain self @ tr_audit_entries tr,
                   prev_world := Some (so_world out)\<rparr>"
      unfolding es s' using E by simp
    show "map ae_kind (tr_audit_entries tr) = step_audit_kinds"
      unfolding es using E by (simp add: step_audit_kinds_def)
    show "map ae_payload (tr_audit_entries tr) =
       [[(''streams'', PDict (sf_streams (so_frame out)))],
        [(''score'', PFloat (rr_score (so_risk out))),
         (''level'', PStr (RiskLevel_name (rr_level (so_risk out))))],
        [(''count'', PInt (int (length (so_intents out))))],
        [(''count'', PInt (int (length (so_proposals out))))],
        [(''count'', PInt (int (length (so_decisions out))))],
        [(''count'', PInt (int (length (so_actuation out))))]]"
      unfolding es using E by simp
    show "\<forall>e \<in> set (tr_audit_entries tr). ae_tick e = tick_id self + 1 \<and> ae_hash e = sha256 L (entry_raw e)"
      unfolding es using E by simp
    show "linked (prev_hash self) (tr_audit_entries tr)"
      unfolding es using E by simp
  qed
qed

lemma ledger_inv_init: "ledger_inv L (AutonomyKernel_init se pe ri po pr go ac cfg)"
  by (simp add: ledger_inv_def AutonomyKernel_init_def last_hash_def)

lemma ledger_inv_audit:
  assumes "ledger_inv L self" "audit L kind payload self env = (e, self', env')"
  shows "ledger_inv L self'"
  using assms(1) audit_eq [OF assms(2)]
  by (auto simp: ledger_inv_def linked_append last_hash_def)

lemma ledger_inv_step:
  assumes inv: "ledger_inv L self" and st: "step L self env = (r, self', env')"
  shows "ledger_inv L self'"
proof (cases r)
  case (Inl e)
  then show ?thesis
    using inv step_Inl(1) [of L self env e self' env'] st
    by (fastforce simp: ledger_inv_def)
next
  case (Inr tr)
  from st Inr have "step L self env = (Inr tr, self', env')" by simp
  then show ?thesis
  proof (rule step_Inr)
    fix out :: StageOutputs and env1 :: "'a pyenv"
    assume s': "self' = self\<lparr>tick_id := tick_id self + 1,
                   prev_hash := last_hash (prev_hash self) (tr_audit_entries tr),
                   audit_chain := audit_chain self @ tr_audit_entries tr,
                   prev_world := Some (so_world out)\<rparr>"
      and h: "\<forall>e \<in> set (tr_audit_entries tr). ae_tick e = tick_id self + 1 \<and> ae_hash e = sha256 L (entry_raw e)"
      and l: "linked (prev_hash self) (tr_audit_entries tr)"
    show ?thesis
      using inv h l unfolding s' ledger_inv_def
      by (auto simp: linked_append last_hash_append)
  qed
qed

lemma reachable_ledger_inv: "reachable L self \<Longrightarrow> ledger_inv L self"
proof (induction rule: reachable.induct)
  case (r_init se pe ri po pr go ac cfg)
  show ?case by (rule ledger_inv_init)
next
  case (r_step self env r self' env')
  then show ?case by (blast intro: ledger_inv_step)
next
  case (r_audit self kind payload env entry self' env')
  then show ?case by (blast intro: ledger_inv_audit)
next
  case (r_config self cfg)
  then show ?case by (simp add: ledger_inv_def)
qed

section \<open>Decisions and actuation\<close>

lemma digits10_small: "n < 10 \<Longrightarrow> digits10 n = [''0123456789'' ! n]"
  by (simp add: digits10.simps)

lemma digits10_large:
  "10 \<le> n \<Longrightarrow> digits10 n = digits10 (n div 10) @ [''0123456789'' ! (n mod 10)]"
  by (subst digits10.simps) simp

lemma sample_governance_collapse:
  "governance_run sample_lib sample_proposals sample_world (sample_risk 30) main_cfg sample_env
     = ((fst (fst sample_governance), snd (fst sample_governance)), snd sample_governance)"
  by (simp add: sample_governance_def)

lemma sample_actuation_collapse:
  "actuation_run (fst (fst sample_governance)) sample_world (snd sample_governance)
     = (fst sample_actuation, snd sample_actuation)"
  by (simp add: sample_actuation_def)

lemma sample_governance_decisions:
  "fst (fst sample_governance) =
     [\<lparr>de_id = ''id-0'', de_proposal_id = ''p-1'', de_tick = 7, de_status = AUTO_APPROVED,
       de_operator = ''AUTO'', de_comment = ''Within auto-go envelope''\<rparr>,
      \<lparr>de_id = ''id-1'', de_proposal_id = ''p-2'', de_tick = 7, de_status = REQUIRES_HUMAN,
       de_operator = ''HUMAN?'',
       de_comment = ''Risk 30.0 or intent RETREAT above auto threshold''\<rparr>]"
  unfolding sample_governance_def governance_run_decisions
  by (simp add: sample_proposals_def sample_proposal_def gate_def sample_risk_def main_cfg_def
        sample_env_def sample_lib_def int_repr_def digits10_small digits10_large)

lemma sample_governance_proposals:
  "map pr_status (snd (fst sample_governance)) = [AUTO_APPROVED, REQUIRES_HUMAN]"
  unfolding sample_governance_def governance_run_proposals
  by (simp add: sample_proposals_def sample_proposal_def gate_def sample_risk_def main_cfg_def)

lemma sample_actuation_cmds:
  "map (\<lambda>c. (ac_tick c, ac_channel c, ac_payload c)) (fst sample_actuation) =
     [(7, ''core'', [(''decision_id'', PStr ''id-0''), (''proposal_id'', PStr ''p-1''),
                     (''mode'', PStr ''EXECUTE'')])]"
  unfolding sample_actuation_def actuation_run_cmds sample_governance_decisions
  by (simp add: auto_payload_def)

lemma governance_actuation_module_counts:
  assumes gov: "governance_run L ps world risk config env = ((ds, ps'), env1)"
    and act: "actuation_run ds world' env1' = (cmds, env2)"
  shows "length ds = length ps
       \<and> map de_proposal_id ds = map pr_id ps
       \<and> length cmds = length (filter (\<lambda>d. de_status d = AUTO_APPROVED) ds)
       \<and> map ac_payload cmds = map auto_payload (filter (\<lambda>d. de_status d = AUTO_APPROVED) ds)
       \<and> (distinct (map de_id ds) \<longrightarrow>
            (\<forall>d \<in> set ds. de_status d = AUTO_APPROVED \<longrightarrow>
               length (filter (\<lambda>c. map_of (ac_payload c) ''decision_id'' = Some (PStr (de_id d)))
                         cmds) = 1))"
proof -
  have ds: "ds = fst (fst (governance_run L ps world risk config env))"
    by (simp add: gov)
  have cmds: "cmds = fst (actuation_run ds world' env1')"
    by (simp add: act)
  let ?auto = "filter (\<lambda>d. de_status d = AUTO_APPROVED) ds"
  have trip: "map (\<lambda>c. (ac_tick c, ac_channel c, ac_payload c)) cmds =
     map (\<lambda>d. (de_tick d, ''core'', auto_payload d)) ?auto"
    unfolding cmds by (rule actuation_run_cmds)
  have pay: "map ac_payload cmds = map auto_payload ?auto"
    using arg_cong [OF trip, of "map (\<lambda>t. snd (snd t))"] by (simp add: o_def)
  have len: "length cmds = length ?auto"
    using arg_cong [OF pay, of length] by simp
  have l1: "length ds = length ps"
    unfolding ds by (rule governance_run_length)
  have l2: "map de_proposal_id ds = map pr_id ps"
    unfolding ds by (rule governance_run_proposal_ids)
  have uniq: "length (filter (\<lambda>c. map_of (ac_payload c) ''decision_id'' = Some (PStr (de_id d))) cmds) = 1"
    if dist0: "distinct (map de_id ds)" and d: "d \<in> set ds" and a: "de_status d = AUTO_APPROVED" for d
  proof -
    have dist: "distinct (map de_id ?auto)"
      using dist0 by (rule distinct_map_filter)
    have "d \<in> set ?auto" using d a by simp
    then have one: "length (filter (\<lambda>y. de_id y = de_id d) ?auto) = 1"
      using count_one [OF dist] by blast
    have "length (filter (\<lambda>c. map_of (ac_payload c) ''decision_id'' = Some (PStr (de_id d))) cmds)
        = length (filter (\<lambda>q. map_of q ''decision_id'' = Some (PStr (de_id d))) (map ac_payload cmds))"
      by (simp add: filter_map o_def)
    also have "\<dots> = length (filter (\<lambda>y. de_id y = de_id d) ?auto)"
      unfolding pay by (simp add: filter_map o_def eq_commute auto_payload_def)
    finally show ?thesis using one by simp
  qed
  show ?thesis using l1 l2 len pay uniq by blast
qed

text \<open>
  C9. After governance has run, the status written into each proposal is the status of its
  decision and the governance notes are the decision's comment; the operator of a decision is
  \<open>AUTO\<close> exactly when its status is AUTO_APPROVED and the placeholder \<open>HUMAN?\<close> otherwise; no
  decision has the status PENDING.
\<close>

theorem governance_writeback_consistent:
  assumes gov: "governance_run L ps world risk config env = ((ds, ps'), env')"
  shows "map pr_id ps' = map pr_id ps
       \<and> map de_proposal_id ds = map pr_id ps'
       \<and> map pr_status ps' = map de_status ds
       \<and> map pr_governance_notes ps' = map de_comment ds
       \<and> (\<forall>d \<in> set ds. de_operator d = (if de_status d = AUTO_APPROVED then ''AUTO'' else ''HUMAN?'')
                         \<and> (de_operator d = ''AUTO'' \<longleftrightarrow> de_status d = AUTO_APPROVED)
                         \<and> de_status d \<noteq> PENDING)"
proof -
  have ds: "ds = fst (fst (governance_run L ps world risk config env))"
    by (simp add: gov)
  have ps': "ps' = snd (fst (governance_run L ps world risk config env))"
    by (simp add: gov)
  have a: "map pr_id ps' = map pr_id ps"
    unfolding ps' governance_run_proposals by (simp add: o_def)
  have b: "map de_proposal_id ds = map pr_id ps'"
    unfolding a unfolding ds by (rule governance_run_proposal_ids)
  have c: "map pr_status ps' = map de_status ds"
    unfolding ds governance_run_statuses unfolding ps' governance_run_proposals
    by (simp add: o_def)
  have d: "map pr_governance_notes ps' = map de_comment ds"
    unfolding ds governance_run_comments unfolding ps' governance_run_proposals
    by (simp add: o_def)
  have e: "\<forall>d \<in> set ds. de_operator d = (if de_status d = AUTO_APPROVED then ''AUTO'' else ''HUMAN?'')
                         \<and> (de_operator d = ''AUTO'' \<longleftrightarrow> de_status d = AUTO_APPROVED)
                         \<and> de_status d \<noteq> PENDING"
    unfolding ds governance_run_decisions
    by (auto simp: gate_not_pending)
  show ?thesis using a b c d e by blast
qed

theorem governance_writeback_consistent_witness:
  "map pr_status (snd (fst sample_governance)) = [AUTO_APPROVED, REQUIRES_HUMAN]
   \<and> map de_status (fst (fst sample_governance)) = [AUTO_APPROVED, REQUIRES_HUMAN]
   \<and> map pr_governance_notes (snd (fst sample_governance))
       = map de_comment (fst (fst sample_governance))
   \<and> map de_operator (fst (fst sample_governance)) = [''AUTO'', ''HUMAN?'']
   \<and> map de_proposal_id (fst (fst sample_governance)) = map pr_id sample_proposals"
  using governance_writeback_consistent [OF sample_governance_collapse]
  by (simp add: sample_governance_decisions)

text \<open>
  C8, as amended. Two applications of the governance gate to the same proposals, world
  state, risk report and configuration agree on every field of every decision other than the
  decision's \<open>id\<close>, and write the same statuses and notes into the proposals; they agree on
  the \<open>id\<close> too when \<open>uuid4\<close> hands both the same values. The \<open>id\<close> itself is drawn afresh
  from \<open>uuid4\<close> at every application.
\<close>

theorem governance_deterministic_up_to_id:
  fixes env1 env2 :: "'m pyenv"
  shows "map decision_content (fst (fst (governance_run L ps world risk config env1)))
     = map decision_content (fst (fst (governance_run L ps world risk config env2)))
   \<and> snd (fst (governance_run L ps world risk config env1))
     = snd (fst (governance_run L ps world risk config env2))
   \<and> (uuid4_src env1 = uuid4_src env2 \<longrightarrow>
        fst (governance_run L ps world risk config env1)
          = fst (governance_run L ps world risk config env2))"
proof -
  have b: "fst (fst (governance_run L ps world risk config env1))
             = fst (fst (governance_run L ps world risk config env2))"
    if "uuid4_src env1 = uuid4_src env2"
    unfolding governance_run_decisions using that by simp
  show ?thesis
    by (simp add: governance_run_content governance_run_proposals b prod_eq_iff)
qed

theorem governance_deterministic_up_to_id_witness:
  "map decision_content (fst (fst sample_governance))
     = map decision_content
         (fst (fst (governance_run sample_lib sample_proposals sample_world (sample_risk 30)
                      main_cfg (snd sample_governance))))
   \<and> map decision_content (fst (fst sample_governance))
     = [(''p-1'', 7, AUTO_APPROVED, ''AUTO'', ''Within auto-go envelope''),
        (''p-2'', 7, REQUIRES_HUMAN, ''HUMAN?'',
         ''Risk 30.0 or intent RETREAT above auto threshold'')]
   \<and> fst (governance_run sample_lib sample_proposals sample_world (sample_risk 30)
             main_cfg sample_env)
     = fst (governance_run sample_lib sample_proposals sample_world (sample_risk 30)
              main_cfg (sample_env\<lparr>time_src := (\<lambda>n. 0)\<rparr>))"
  using governance_deterministic_up_to_id [of sample_lib sample_proposals sample_world
          "sample_risk 30" main_cfg sample_env "snd sample_governance"]
        governance_deterministic_up_to_id [of sample_lib sample_proposals sample_world
          "sample_risk 30" main_cfg sample_env "sample_env\<lparr>time_src := (\<lambda>n. 0)\<rparr>"]
  by (simp add: sample_governance_decisions decision_content_def
        sample_governance_def [symmetric])

text \<open>
  C8 as stated fails: the gate applied a second time, to the same inputs, right after the
  first, returns decisions that differ from the first ones (in their \<open>id\<close>).
\<close>

theorem governance_decision_ids_differ:
  "fst (fst (governance_run sample_lib sample_proposals sample_world (sample_risk 30)
               main_cfg sample_env))
   \<noteq> fst (fst (governance_run sample_lib sample_proposals sample_world (sample_risk 30)
                 main_cfg (snd sample_governance)))"
proof
  assume eq: "fst (fst (governance_run sample_lib sample_proposals sample_world (sample_risk 30)
               main_cfg sample_env))
   = fst (fst (governance_run sample_lib sample_proposals sample_world (sample_risk 30)
                 main_cfg (snd sample_governance)))"
  have "map (uuid4_src sample_env) [0..<length sample_proposals]
      = map (uuid4_src (snd sample_governance)) [0..<length sample_proposals]"
    using arg_cong [OF eq, of "map de_id"] unfolding governance_run_ids .
  then show False
    unfolding sample_governance_def governance_run_env
    by (simp add: sample_proposals_def sample_env_def digits10_small)
qed

section \<open>The modules inside a tick\<close>

lemma sensor_read_eq:
  "\<exists>a b c env'. sensor_read tick prev env =
     (Inr \<lparr>sf_tick = tick, sf_ts = time_src env 0,
           sf_streams = [(''ops'', PDict [(''system_load'', PFloat a), (''env_stress'', PFloat b),
                                          (''comms_quality'', PFloat c)])]\<rparr>, env')"
  by (simp add: sensor_read_def Let_def split_def time_time_def)

lemma perception_run_ok:
  assumes "py_get (sf_streams frame) ''ops'' (PDict []) = PDict ops"
    and "one_minus (py_get ops ''system_load'' (PFloat 0.5)) = Inr a"
    and "one_minus (py_get ops ''env_stress'' (PFloat 0.5)) = Inr b"
  shows "perception_run frame prev env =
     (Inr \<lparr>ws_tick = sf_tick frame, ws_ts = sf_ts frame,
           ws_facts = [(''raw_ops'', PDict ops), (''alerts'', PList [])],
           ws_health = [(''compute'', PFloat (max 0 a)), (''environment'', PFloat (max 0 b)),
                        (''comms'', py_get ops ''comms_quality'' (PFloat 0.8))]\<rparr>, env)"
  using assms by (simp add: perception_run_def Let_def)

lemma perception_run_tick:
  "perception_run frame prev env = (Inr w, env') \<Longrightarrow> ws_tick w = sf_tick frame"
  by (auto simp: perception_run_def Let_def split: pyval.splits sum.splits)

lemma risk_run_tick: "risk_run L w env = (Inr r, env') \<Longrightarrow> rr_tick r = ws_tick w"
  by (auto simp: risk_run_def Let_def split: sum.splits)

lemma risk_run_ok:
  assumes "one_minus (py_get (ws_health w) ''compute'' (PFloat 0.8)) = Inr a"
    and "one_minus (py_get (ws_health w) ''environment'' (PFloat 0.8)) = Inr b"
    and "one_minus (py_get (ws_health w) ''comms'' (PFloat 0.8)) = Inr c"
  shows "\<exists>r. risk_run L w env = (Inr r, env)"
  using assms by (simp add: risk_run_def Let_def)

lemma policy_run_ok: "\<exists>intents env'. policy_run L w r env = (Inr intents, env')"
  by (simp add: policy_run_def Let_def split_def)

lemma proposal_loop_ticks:
  "\<forall>p \<in> set (fst (proposal_loop intents w env)). pr_tick p = ws_tick w"
  by (induction intents arbitrary: env) (simp_all add: Let_def split_def)

lemma proposal_run_ok:
  "\<exists>ps env'. proposal_run intents w r env = (Inr ps, env') \<and> (\<forall>p \<in> set ps. pr_tick p = ws_tick w)"
  using proposal_loop_ticks [of intents w env]
  by (simp add: proposal_run_def split_def Let_def)

lemma governance_run_ticks:
  "map de_tick (fst (fst (governance_run L ps w r cfg env))) = map pr_tick ps"
  "map pr_tick (snd (fst (governance_run L ps w r cfg env))) = map pr_tick ps"
  unfolding governance_run_decisions governance_run_proposals
  by (induction ps rule: rev_induct) (simp_all add: o_def split_def)

lemma governance_module_run_ok:
  "\<exists>ds ps' env'. governance_module_run L ps w r cfg env = (Inr (ds, ps'), env')
      \<and> map de_tick ds = map pr_tick ps \<and> map pr_tick ps' = map pr_tick ps"
proof -
  obtain ds ps' env' where g: "governance_run L ps w r cfg env = ((ds, ps'), env')"
    by (metis prod.collapse)
  have "map de_tick ds = map pr_tick ps" "map pr_tick ps' = map pr_tick ps"
    using governance_run_ticks [of L ps w r cfg env] by (simp_all add: g)
  then show ?thesis by (simp add: governance_module_run_def g)
qed

lemma actuation_run_ticks:
  "\<forall>c \<in> set (fst (actuation_run ds w env)). \<exists>d \<in> set ds. ac_tick c = de_tick d"
  by (induction ds arbitrary: env) (auto simp: Let_def split_def)

lemma actuation_module_run_ok:
  "\<exists>cs env'. actuation_module_run ds w env = (Inr cs, env')
      \<and> (\<forall>c \<in> set cs. \<exists>d \<in> set ds. ac_tick c = de_tick d)"
  using actuation_run_ticks [of ds w env]
  by (simp add: actuation_module_run_def split_def Let_def)


text \<open>
  The default perception and risk modules succeed on a frame whose \<open>ops\<close> readings are
  numbers; the modules after them never raise.
\<close>

lemma stages_downstream:
  assumes se: "sensor self (tick_id self) (prev_world self) env = (Inr frame, env1)"
    and ops: "py_get (sf_streams frame) ''ops'' (PDict []) = PDict ops"
    and a: "one_minus (py_get ops ''system_load'' (PFloat 0.5)) = Inr a"
    and b: "one_minus (py_get ops ''env_stress'' (PFloat 0.5)) = Inr b"
    and c: "one_minus (py_get ops ''comms_quality'' (PFloat 0.8)) = Inr c"
    and m: "perception self = perception_run" "risk_module self = risk_run L"
      "policy_module self = policy_run L" "proposal_module self = proposal_run"
      "governance_module self = governance_module_run L"
      "actuation_module self = actuation_module_run"
  shows "\<exists>out env2. stages self env = (Inr out, env2) \<and> so_frame out = frame
       \<and> ws_tick (so_world out) = sf_tick frame \<and> rr_tick (so_risk out) = sf_tick frame
       \<and> (\<forall>p \<in> set (so_proposals out). pr_tick p = sf_tick frame)
       \<and> (\<forall>d \<in> set (so_decisions out). de_tick d = sf_tick frame)
       \<and> (\<forall>c \<in> set (so_actuation out). ac_tick c = sf_tick frame)"
proof -
  let ?w = "\<lparr>ws_tick = sf_tick frame, ws_ts = sf_ts frame,
           ws_facts = [(''raw_ops'', PDict ops), (''alerts'', PList [])],
           ws_health = [(''compute'', PFloat (max 0 a)), (''environment'', PFloat (max 0 b)),
                        (''comms'', py_get ops ''comms_quality'' (PFloat 0.8))]\<rparr>"
  have pe: "perception_run frame (prev_world self) env1 = (Inr ?w, env1)"
    by (rule perception_run_ok [OF ops a b])
  obtain r where ri: "risk_run L ?w env1 = (Inr r, env1)"
    using risk_run_ok [of ?w "1 - max 0 a" "1 - max 0 b" c L env1] c
    by (auto simp: py_get_def)
  have rt: "rr_tick r = sf_tick frame"
    using risk_run_tick [OF ri] by simp
  obtain intents env3 where po: "policy_run L ?w r env1 = (Inr intents, env3)"
    using policy_run_ok by blast
  obtain ps env4 where pr: "proposal_run intents ?w r env3 = (Inr ps, env4)"
    and pt: "\<forall>p \<in> set ps. pr_tick p = sf_tick frame"
    using proposal_run_ok [of intents ?w r env3] by auto
  obtain ds ps' env5 where go: "governance_module_run L ps ?w r (gov_cfg self) env4 = (Inr (ds, ps'), env5)"
    and dt: "map de_tick ds = map pr_tick ps" and pt': "map pr_tick ps' = map pr_tick ps"
    using governance_module_run_ok [of L ps ?w r "gov_cfg self" env4] by auto
  obtain cs env6 where ac: "actuation_module_run ds ?w env5 = (Inr cs, env6)"
    and ct: "\<forall>c \<in> set cs. \<exists>d \<in> set ds. ac_tick c = de_tick d"
    using actuation_module_run_ok [of ds ?w env5] by auto
  have all_ps: "\<forall>x \<in> set (map pr_tick ps). x = sf_tick frame" using pt by simp
  have dt2: "\<forall>d \<in> set ds. de_tick d = sf_tick frame"
  proof
    fix d assume "d \<in> set ds"
    then have "de_tick d \<in> set (map de_tick ds)" by simp
    then show "de_tick d = sf_tick frame" using all_ps unfolding dt by blast
  qed
  have pt2: "\<forall>p \<in> set ps'. pr_tick p = sf_tick frame"
  proof
    fix p assume "p \<in> set ps'"
    then have "pr_tick p \<in> set (map pr_tick ps')" by simp
    then show "pr_tick p = sf_tick frame" using all_ps unfolding pt' by blast
  qed
  have ct2: "\<forall>c \<in> set cs. ac_tick c = sf_tick frame"
    using ct dt2 by auto
  have "stages self env =
          (Inr \<lparr>so_frame = frame, so_world = ?w, so_risk = r, so_intents = intents,
                so_proposals = ps', so_decisions = ds, so_actuation = cs\<rparr>, env6)"
    by (simp only: stages_def se m pe ri po pr go ac prod.case sum.case)
  then show ?thesis
    using rt pt2 dt2 ct2 by simp
qed

lemma stages_default:
  assumes "default_modules L self"
  shows "\<exists>out env2. stages self env = (Inr out, env2)
       \<and> sf_tick (so_frame out) = tick_id self
       \<and> ws_tick (so_world out) = tick_id self \<and> rr_tick (so_risk out) = tick_id self
       \<and> (\<forall>p \<in> set (so_proposals out). pr_tick p = tick_id self)
       \<and> (\<forall>d \<in> set (so_decisions out). de_tick d = tick_id self)
       \<and> (\<forall>c \<in> set (so_actuation out). ac_tick c = tick_id self)"
proof -
  obtain a b c env1 where
    se: "sensor_read (tick_id self) (prev_world self) env =
     (Inr \<lparr>sf_tick = tick_id self, sf_ts = time_src env 0,
           sf_streams = [(''ops'', PDict [(''system_load'', PFloat a), (''env_stress'', PFloat b),
                                          (''comms_quality'', PFloat c)])]\<rparr>, env1)"
    using sensor_read_eq [of "tick_id self" "prev_world self" env] by blast
  let ?frame = "\<lparr>sf_tick = tick_id self, sf_ts = time_src env 0,
           sf_streams = [(''ops'', PDict [(''system_load'', PFloat a), (''env_stress'', PFloat b),
                                          (''comms_quality'', PFloat c)])]\<rparr>"
  let ?ops = "[(''system_load'', PFloat a), (''env_stress'', PFloat b), (''comms_quality'', PFloat c)]"
  have m: "sensor self = sensor_read" "perception self = perception_run"
      "risk_module self = risk_run L"
      "policy_module self = policy_run L" "proposal_module self = proposal_run"
      "governance_module self = governance_module_run L"
      "actuation_module self = actuation_module_run"
    using assms by (simp_all add: default_modules_def)
  have se': "sensor self (tick_id self) (prev_world self) env = (Inr ?frame, env1)"
    using se by (simp add: m)
  have o: "py_get (sf_streams ?frame) ''ops'' (PDict []) = PDict ?ops"
    by (simp add: py_get_def)
  have a: "one_minus (py_get ?ops ''system_load'' (PFloat 0.5)) = Inr (1 - a)"
    and b: "one_minus (py_get ?ops ''env_stress'' (PFloat 0.5)) = Inr (1 - b)"
    and c: "one_minus (py_get ?ops ''comms_quality'' (PFloat 0.8)) = Inr (1 - c)"
    by (simp_all add: py_get_def)
  show ?thesis
    using stages_downstream [OF se' o a b c m(2-7)] by auto
qed

lemma stages_empty_frame:
  assumes se: "sensor self (tick_id self) (prev_world self) env = (Inr frame, env1)"
    and e: "sf_streams frame = []"
    and m: "perception self = perception_run" "risk_module self = risk_run L"
      "policy_module self = policy_run L" "proposal_module self = proposal_run"
      "governance_module self = governance_module_run L"
      "actuation_module self = actuation_module_run"
  shows "\<exists>out env2. stages self env = (Inr out, env2) \<and> so_frame out = frame"
proof -
  have o: "py_get (sf_streams frame) ''ops'' (PDict []) = PDict []"
    by (simp add: py_get_def e)
  have a: "one_minus (py_get [] ''system_load'' (PFloat 0.5)) = Inr (1 - 0.5)"
    and b: "one_minus (py_get [] ''env_stress'' (PFloat 0.5)) = Inr (1 - 0.5)"
    and c: "one_minus (py_get [] ''comms_quality'' (PFloat 0.8)) = Inr (1 - 0.8)"
    by (simp_all add: py_get_def)
  show ?thesis
    using stages_downstream [OF se o a b c m] by blast
qed

lemma step_of_stages:
  assumes "stages (self\<lparr>tick_id := tick_id self + 1\<rparr>) env = (Inr out, env1)"
  shows "\<exists>tr self' env'. step L self env = (Inr tr, self', env')
       \<and> tr_tick tr = tick_id self + 1 \<and> tr_sensor_frame tr = so_frame out
       \<and> tr_world tr = so_world out \<and> tr_risk tr = so_risk out
       \<and> tr_intents tr = so_intents out \<and> tr_proposals tr = so_proposals out
       \<and> tr_decisions tr = so_decisions out \<and> tr_actuation tr = so_actuation out"
proof -
  obtain r self' env' where st: "step L self env = (r, self', env')"
    by (metis prod.collapse)
  show ?thesis
  proof (cases r)
    case (Inl e)
    then show ?thesis using step_Inl(2) [of L self env e self' env'] st assms by simp
  next
    case (Inr tr)
    with st have s: "step L self env = (Inr tr, self', env')" by simp
    show ?thesis
    proof (rule step_Inr [OF s])
      fix out' :: StageOutputs and env1' :: "'a pyenv"
      assume o: "stages (self\<lparr>tick_id := tick_id self + 1\<rparr>) env = (Inr out', env1')"
        and t: "tr = \<lparr>tr_tick = tick_id self + 1, tr_sensor_frame = so_frame out',
                    tr_world = so_world out', tr_risk = so_risk out',
                    tr_intents = so_intents out', tr_proposals = so_proposals out',
                    tr_decisions = so_decisions out', tr_actuation = so_actuation out',
                    tr_audit_entries = tr_audit_entries tr\<rparr>"
      have "out' = out" using o assms by simp
      then show ?thesis using s t by (metis TickResult.select_convs(1-8))
    qed
  qed
qed

section \<open>Ticks\<close>

lemma stages_failure_surfaces:
  "sensor self (tick_id self) (prev_world self) env = (Inl e, env1)
     \<Longrightarrow> stages self env = (Inl e, env1)"
  "sensor self (tick_id self) (prev_world self) env = (Inr frame, env1)
     \<Longrightarrow> perception self frame (prev_world self) env1 = (Inl e, env2)
     \<Longrightarrow> stages self env = (Inl e, env2)"
  "sensor self (tick_id self) (prev_world self) env = (Inr frame, env1)
     \<Longrightarrow> perception self frame (prev_world self) env1 = (Inr world, env2)
     \<Longrightarrow> risk_module self world env2 = (Inl e, env3)
     \<Longrightarrow> stages self env = (Inl e, env3)"
  "sensor self (tick_id self) (prev_world self) env = (Inr frame, env1)
     \<Longrightarrow> perception self frame (prev_world self) env1 = (Inr world, env2)
     \<Longrightarrow> risk_module self world env2 = (Inr risk, env3)
     \<Longrightarrow> policy_module self world risk env3 = (Inl e, env4)
     \<Longrightarrow> stages self env = (Inl e, env4)"
  "sensor self (tick_id self) (prev_world self) env = (Inr frame, env1)
     \<Longrightarrow> perception self frame (prev_world self) env1 = (Inr world, env2)
     \<Longrightarrow> risk_module self world env2 = (Inr risk, env3)
     \<Longrightarrow> policy_module self world risk env3 = (Inr intents, env4)
     \<Longrightarrow> proposal_module self intents world risk env4 = (Inl e, env5)
     \<Longrightarrow> stages self env = (Inl e, env5)"
  "sensor self (tick_id self) (prev_world self) env = (Inr frame, env1)
     \<Longrightarrow> perception self frame (prev_world self) env1 = (Inr world, env2)
     \<Longrightarrow> risk_module self world env2 = (Inr risk, env3)
     \<Longrightarrow> policy_module self world risk env3 = (Inr intents, env4)
     \<Longrightarrow> proposal_module self intents world risk env4 = (Inr proposals, env5)
     \<Longrightarrow> governance_module self proposals world risk (gov_cfg self) env5 = (Inl e, env6)
     \<Longrightarrow> stages self env = (Inl e, env6)"
  "sensor self (tick_id self) (prev_world self) env = (Inr frame, env1)
     \<Longrightarrow> perception self frame (prev_world self) env1 = (Inr world, env2)
     \<Longrightarrow> risk_module self world env2 = (Inr risk, env3)
     \<Longrightarrow> policy_module self world risk env3 = (Inr intents, env4)
     \<Longrightarrow> proposal_module self intents world risk env4 = (Inr proposals, env5)
     \<Longrightarrow> governance_module self proposals world risk (gov_cfg self) env5
           = (Inr (decisions, proposals'), env6)
     \<Longrightarrow> actuation_module self decisions world env6 = (Inl e, env7)
     \<Longrightarrow> stages self env = (Inl e, env7)"
  by (simp_all add: stages_def)

lemma step_modules:
  assumes "step L self env = (r, self', env')"
  shows "sensor self' = sensor self" "perception self' = perception self"
    "risk_module self' = risk_module self" "policy_module self' = policy_module self"
    "proposal_module self' = proposal_module self"
    "governance_module self' = governance_module self"
    "actuation_module self' = actuation_module self" "gov_cfg self' = gov_cfg self"
    "tick_id self' = tick_id self + 1"
proof -
  have "sensor self' = sensor self \<and> perception self' = perception self
      \<and> risk_module self' = risk_module self \<and> policy_module self' = policy_module self
      \<and> proposal_module self' = proposal_module self
      \<and> governance_module self' = governance_module self
      \<and> actuation_module self' = actuation_module self \<and> gov_cfg self' = gov_cfg self
      \<and> tick_id self' = tick_id self + 1"
  proof (cases r)
    case (Inl e)
    then show ?thesis using step_Inl(1) [of L self env e self' env'] assms by simp
  next
    case (Inr tr)
    with assms have s: "step L self env = (Inr tr, self', env')" by simp
    show ?thesis
      by (rule step_Inr [OF s]) simp
  qed
  then show "sensor self' = sensor self" "perception self' = perception self"
    "risk_module self' = risk_module self" "policy_module self' = policy_module self"
    "proposal_module self' = proposal_module self"
    "governance_module self' = governance_module self"
    "actuation_module self' = actuation_module self" "gov_cfg self' = gov_cfg self"
    "tick_id self' = tick_id self + 1"
    by simp_all
qed

lemma map_constant: "\<forall>x \<in> set xs. f x = c \<Longrightarrow> map f xs = replicate (length xs) c"
  by (induction xs) simp_all

lemma length_step_audit_kinds: "length step_audit_kinds = 6"
  by (simp add: step_audit_kinds_def)

lemma step_entries_length:
  assumes "step L self env = (Inr tr, self', env')"
  shows "audit_chain self' = audit_chain self @ tr_audit_entries tr"
    and "length (tr_audit_entries tr) = 6"
proof -
  show "audit_chain self' = audit_chain self @ tr_audit_entries tr"
    by (rule step_Inr [OF assms]) simp
  have "map ae_kind (tr_audit_entries tr) = step_audit_kinds"
    by (rule step_Inr [OF assms])
  from arg_cong [OF this, of length] show "length (tr_audit_entries tr) = 6"
    by (simp add: length_step_audit_kinds)
qed

text \<open>
  C4. When one of the seven modules called by \<open>step\<close> raises (the sensor, or any later module
  after the ones before it have returned), \<open>step\<close> raises the same exception and leaves the
  kernel as it was before the call but for the tick counter, which is incremented. And whenever
  \<open>step\<close> raises, no audit entry has been appended, and the previous hash and the previous
  world state are unchanged.
\<close>

theorem step_failure_commits_nothing:
  "(sensor self (tick_id self + 1) (prev_world self) env = (Inl e, enva)
      \<longrightarrow> step L self env = (Inl e, self\<lparr>tick_id := tick_id self + 1\<rparr>, enva))
   \<and> (sensor self (tick_id self + 1) (prev_world self) env = (Inr frame, enva)
      \<and> perception self frame (prev_world self) enva = (Inl e, envb)
      \<longrightarrow> step L self env = (Inl e, self\<lparr>tick_id := tick_id self + 1\<rparr>, envb))
   \<and> (sensor self (tick_id self + 1) (prev_world self) env = (Inr frame, enva)
      \<and> perception self frame (prev_world self) enva = (Inr world, envb)
      \<and> risk_module self world envb = (Inl e, envc)
      \<longrightarrow> step L self env = (Inl e, self\<lparr>tick_id := tick_id self + 1\<rparr>, envc))
   \<and> (sensor self (tick_id self + 1) (prev_world self) env = (Inr frame, enva)
      \<and> perception self frame (prev_world self) enva = (Inr world, envb)
      \<and> risk_module self world envb = (Inr risk, envc)
      \<and> policy_module self world risk envc = (Inl e, envd)
      \<longrightarrow> step L self env = (Inl e, self\<lparr>tick_id := tick_id self + 1\<rparr>, envd))
   \<and> (sensor self (tick_id self + 1) (prev_world self) env = (Inr frame, enva)
      \<and> perception self frame (prev_world self) enva = (Inr world, envb)
      \<and> risk_module self world envb = (Inr risk, envc)
      \<and> policy_module self world risk envc = (Inr intents, envd)
      \<and> proposal_module self intents world risk envd = (Inl e, enve)
      \<longrightarrow> step L self env = (Inl e, self\<lparr>tick_id := tick_id self + 1\<rparr>, enve))
   \<and> (sensor self (tick_id self + 1) (prev_world self) env = (Inr frame, enva)
      \<and> perception self frame (prev_world self) enva = (Inr world, envb)
      \<and> risk_module self world envb = (Inr risk, envc)
      \<and> policy_module self world risk envc = (Inr intents, envd)
      \<and> proposal_module self intents world risk envd = (Inr proposals, enve)
      \<and> governance_module self proposals world risk (gov_cfg self) enve = (Inl e, envf)
      \<longrightarrow> step L self env = (Inl e, self\<lparr>tick_id := tick_id self + 1\<rparr>, envf))
   \<and> (sensor self (tick_id self + 1) (prev_world self) env = (Inr frame, enva)
      \<and> perception self frame (prev_world self) enva = (Inr world, envb)
      \<and> risk_module self world envb = (Inr risk, envc)
      \<and> policy_module self world risk envc = (Inr intents, envd)
      \<and> proposal_module self intents world risk envd = (Inr proposals, enve)
      \<and> governance_module self proposals world risk (gov_cfg self) enve
            = (Inr (decisions, proposals'), envf)
      \<and> actuation_module self decisions world envf = (Inl e, envg)
      \<longrightarrow> step L self env = (Inl e, self\<lparr>tick_id := tick_id self + 1\<rparr>, envg))
   \<and> (step L self env = (Inl e, self', env')
      \<longrightarrow> audit_chain self' = audit_chain self \<and> prev_hash self' = prev_hash self
          \<and> prev_world self' = prev_world self \<and> tick_id self' = tick_id self + 1)"
proof -
  let ?s = "self\<lparr>tick_id := tick_id self + 1\<rparr>"
  have up: "step L self env = (Inl e, ?s, x)" if "stages ?s env = (Inl e, x)" for x
    using that by (simp add: step_def Let_def)
  have f: "sensor ?s = sensor self" "perception ?s = perception self"
    "risk_module ?s = risk_module self" "policy_module ?s = policy_module self"
    "proposal_module ?s = proposal_module self" "governance_module ?s = governance_module self"
    "actuation_module ?s = actuation_module self" "gov_cfg ?s = gov_cfg self"
    "tick_id ?s = tick_id self + 1" "prev_world ?s = prev_world self"
    by simp_all
  note S = stages_failure_surfaces [of ?s, unfolded f]
  have 1: "sensor self (tick_id self + 1) (prev_world self) env = (Inl e, enva)
      \<longrightarrow> step L self env = (Inl e, ?s, enva)"
    using up S(1) by blast
  have 2: "sensor self (tick_id self + 1) (prev_world self) env = (Inr frame, enva)
      \<and> perception self frame (prev_world self) enva = (Inl e, envb)
      \<longrightarrow> step L self env = (Inl e, ?s, envb)"
    using up S(2) by blast
  have 3: "sensor self (tick_id self + 1) (prev_world self) env = (Inr frame, enva)
      \<and> perception self frame (prev_world self) enva = (Inr world, envb)
      \<and> risk_module self world envb = (Inl e, envc)
      \<longrightarrow> step L self env = (Inl e, ?s, envc)"
    using up S(3) by blast
  have 4: "sensor self (tick_id self + 1) (prev_world self) env = (Inr frame, enva)
      \<and> perception self frame (prev_world self) enva = (Inr world, envb)
      \<and> risk_module self world envb = (Inr risk, envc)
      \<and> policy_module self world risk envc = (Inl e, envd)
      \<longrightarrow> step L self env = (Inl e, ?s, envd)"
    using up S(4) by blast
  have 5: "sensor self (tick_id self + 1) (prev_world self) env = (Inr frame, enva)
      \<and> perception self frame (prev_world self) enva = (Inr world, envb)
      \<and> risk_module self world envb = (Inr risk, envc)
      \<and> policy_module self world risk envc = (Inr intents, envd)
      \<and> proposal_module self intents world risk envd = (Inl e, enve)
      \<longrightarrow> step L self env = (Inl e, ?s, enve)"
    using up S(5) by blast
  have 6: "sensor self (tick_id self + 1) (prev_world self) env = (Inr frame, enva)
      \<and> perception self frame (prev_world self) enva = (Inr world, envb)
      \<and> risk_module self world envb = (Inr risk, envc)
      \<and> policy_module self world risk envc = (Inr intents, envd)
      \<and> proposal_module self intents world risk envd = (Inr proposals, enve)
      \<and> governance_module self proposals world risk (gov_cfg self) enve = (Inl e, envf)
      \<longrightarrow> step L self env = (Inl e, ?s, envf)"
    using up S(6) by blast
  have 7: "sensor self (tick_id self + 1) (prev_world self) env = (Inr frame, enva)
      \<and> perception self frame (prev_world self) enva = (Inr world, envb)
      \<and> risk_module self world envb = (Inr risk, envc)
      \<and> policy_module self world risk envc = (Inr intents, envd)
      \<and> proposal_module self intents world risk envd = (Inr proposals, enve)
      \<and> governance_module self proposals world risk (gov_cfg self) enve
            = (Inr (decisions, proposals'), envf)
      \<and> actuation_module self decisions world envf = (Inl e, envg)
      \<longrightarrow> step L self env = (Inl e, ?s, envg)"
    using up S(7) by blast
  have 8: "step L self env = (Inl e, self', env')
      \<longrightarrow> audit_chain self' = audit_chain self \<and> prev_hash self' = prev_hash self
          \<and> prev_world self' = prev_world self \<and> tick_id self' = tick_id self + 1"
    using step_Inl(1) [of L self env e self' env'] by auto
  show ?thesis using 1 2 3 4 5 6 7 8 by blast
qed

text \<open>
  C5. A call of \<open>step\<close> that returns appends exactly six entries to the chain, of the kinds
  frame, risk, intents, proposals, decisions, actuation in this order; all six carry the tick
  id the call returns, which is greater than the tick of every entry already in the chain;
  the chain before the call is a prefix of the chain after it, and a call that raises leaves
  the chain as it was.
\<close>

theorem step_appends_six_entries:
  assumes "reachable L self" and "step L self env = (r, self', env')"
  shows "case r of
           Inl e \<Rightarrow> audit_chain self' = audit_chain self
         | Inr tr \<Rightarrow>
             audit_chain self' = audit_chain self @ tr_audit_entries tr
             \<and> length (tr_audit_entries tr) = 6
             \<and> map ae_kind (tr_audit_entries tr)
                 = [''frame'', ''risk'', ''intents'', ''proposals'', ''decisions'', ''actuation'']
             \<and> (\<forall>e \<in> set (tr_audit_entries tr). ae_tick e = tr_tick tr)
             \<and> tr_tick tr = tick_id self'
             \<and> (\<forall>e \<in> set (audit_chain self). ae_tick e < tr_tick tr)"
proof (cases r)
  case (Inl e)
  then show ?thesis
    using step_Inl(1) [of L self env e self' env'] assms(2) by simp
next
  case (Inr tr)
  with assms have s: "step L self env = (Inr tr, self', env')" by simp
  have old: "\<forall>e \<in> set (audit_chain self). ae_tick e \<le> tick_id self"
    using reachable_ledger_inv [OF assms(1)] by (simp add: ledger_inv_def)
  show ?thesis
  proof (rule step_Inr [OF s])
    fix out :: StageOutputs and env1 :: "'a pyenv"
    assume t: "tr = \<lparr>tr_tick = tick_id self + 1, tr_sensor_frame = so_frame out,
                    tr_world = so_world out, tr_risk = so_risk out,
                    tr_intents = so_intents out, tr_proposals = so_proposals out,
                    tr_decisions = so_decisions out, tr_actuation = so_actuation out,
                    tr_audit_entries = tr_audit_entries tr\<rparr>"
      and s': "self' = self\<lparr>tick_id := tick_id self + 1,
                   prev_hash := last_hash (prev_hash self) (tr_audit_entries tr),
                   audit_chain := audit_chain self @ tr_audit_entries tr,
                   prev_world := Some (so_world out)\<rparr>"
      and k: "map ae_kind (tr_audit_entries tr) = step_audit_kinds"
      and h: "\<forall>e \<in> set (tr_audit_entries tr). ae_tick e = tick_id self + 1 \<and> ae_hash e = sha256 L (entry_raw e)"
    have tt: "tr_tick tr = tick_id self + 1"
      by (subst t) simp
    have len: "length (tr_audit_entries tr) = 6"
      using arg_cong [OF k, of length] by (simp add: length_step_audit_kinds)
    have "audit_chain self' = audit_chain self @ tr_audit_entries tr" "tick_id self' = tick_id self + 1"
      by (simp_all add: s')
    moreover have "\<forall>e \<in> set (audit_chain self). ae_tick e < tr_tick tr"
      using old tt by fastforce
    ultimately show ?thesis
      using Inr len k h tt by (simp add: step_audit_kinds_def)
  qed
qed

lemma step_returns_tick:
  assumes "step L self env = (Inr tr, self', env')"
  shows "tr_tick tr = tick_id self + 1"
  by (rule step_Inr [OF assms]) (metis TickResult.select_convs(1))

text \<open>
  C7, as amended. The counter is 0 in a new kernel; every call of \<open>step\<close>, returning or
  raising, increments it by exactly one, and \<open>_audit\<close> leaves it alone; a call that returns
  returns the incremented counter. So the first call returns 1, and a call that returns right
  after a call that returned returns one more than that one.
\<close>

theorem tick_id_increments:
  "tick_id (AutonomyKernel_init se pe ri po pr go ac cfg) = 0
   \<and> (step L self env = (r, self', env') \<longrightarrow>
        tick_id self' = tick_id self + 1 \<and> (\<forall>tr. r = Inr tr \<longrightarrow> tr_tick tr = tick_id self + 1))
   \<and> (step L (AutonomyKernel_init se pe ri po pr go ac cfg) enva = (Inr tra, selfa, enva') \<longrightarrow>
        tr_tick tra = 1)
   \<and> (step L selfb envb = (Inr trb, selfc, envc) \<and> step L selfc envc' = (Inr trc, selfd, envd)
        \<longrightarrow> tr_tick trc = tr_tick trb + 1)
   \<and> (audit L kind payload selfe enve = (entry, selff, envf) \<longrightarrow> tick_id selff = tick_id selfe)"
proof -
  have a: "tick_id (AutonomyKernel_init se pe ri po pr go ac cfg) = 0"
    by (simp add: AutonomyKernel_init_def)
  have b: "step L self env = (r, self', env') \<longrightarrow>
        tick_id self' = tick_id self + 1 \<and> (\<forall>tr. r = Inr tr \<longrightarrow> tr_tick tr = tick_id self + 1)"
    using step_returns_tick [of L self env _ self' env'] step_modules(9) [of L self env r self' env']
    by blast
  have c: "step L (AutonomyKernel_init se pe ri po pr go ac cfg) enva = (Inr tra, selfa, enva')
        \<longrightarrow> tr_tick tra = 1"
    using step_returns_tick [of L "AutonomyKernel_init se pe ri po pr go ac cfg" enva tra selfa enva'] a
    by simp
  have d: "step L selfb envb = (Inr trb, selfc, envc) \<and> step L selfc envc' = (Inr trc, selfd, envd)
        \<longrightarrow> tr_tick trc = tr_tick trb + 1"
    using step_returns_tick [of L selfb envb trb selfc envc]
      step_returns_tick [of L selfc envc' trc selfd envd]
      step_modules(9) [of L selfb envb "Inr trb" selfc envc]
    by simp
  have e: "audit L kind payload selfe enve = (entry, selff, envf) \<longrightarrow> tick_id selff = tick_id selfe"
    using audit_eq(1) [of L kind payload selfe enve entry selff envf] by auto
  show ?thesis using a b c d e by blast
qed

lemma default_kernel_fields:
  "default_modules L (default_kernel L cfg)" "tick_id (default_kernel L cfg) = 0"
  "audit_chain (default_kernel L cfg) = []" "prev_world (default_kernel L cfg) = None"
  by (simp_all add: default_modules_def default_kernel_def AutonomyKernel_init_def)

lemma default_kernel_reachable: "reachable L' (default_kernel L cfg)"
  unfolding default_kernel_def by (rule r_init)

lemma default_modules_step:
  assumes "default_modules L self" "step L' self env = (r, self', env')"
  shows "default_modules L self'"
  using assms(1) step_modules [OF assms(2)] by (simp add: default_modules_def)

lemma default_step_succeeds:
  assumes "default_modules L self"
  shows "\<exists>tr self' env'. step L' self env = (Inr tr, self', env')
       \<and> tr_tick tr = tick_id self + 1
       \<and> sf_tick (tr_sensor_frame tr) = tick_id self + 1
       \<and> ws_tick (tr_world tr) = tick_id self + 1
       \<and> rr_tick (tr_risk tr) = tick_id self + 1
       \<and> (\<forall>p \<in> set (tr_proposals tr). pr_tick p = tick_id self + 1)
       \<and> (\<forall>d \<in> set (tr_decisions tr). de_tick d = tick_id self + 1)
       \<and> (\<forall>c \<in> set (tr_actuation tr). ac_tick c = tick_id self + 1)"
proof -
  let ?s = "self\<lparr>tick_id := tick_id self + 1\<rparr>"
  have "default_modules L ?s" using assms by (simp add: default_modules_def)
  from stages_default [OF this, of env]
  obtain out env2 where st: "stages ?s env = (Inr out, env2)"
    and t: "sf_tick (so_frame out) = tick_id self + 1"
       "ws_tick (so_world out) = tick_id self + 1" "rr_tick (so_risk out) = tick_id self + 1"
       "\<forall>p \<in> set (so_proposals out). pr_tick p = tick_id self + 1"
       "\<forall>d \<in> set (so_decisions out). de_tick d = tick_id self + 1"
       "\<forall>c \<in> set (so_actuation out). ac_tick c = tick_id self + 1"
    by auto
  from step_of_stages [OF st, of L'] t show ?thesis by auto
qed

lemma flaky_kernel_fields:
  "flaky_modules flaky_kernel" "tick_id flaky_kernel = 0" "audit_chain flaky_kernel = []"
  "prev_world flaky_kernel = None"
  by (simp_all add: flaky_modules_def flaky_kernel_def AutonomyKernel_init_def)

lemma flaky_modules_step:
  assumes "flaky_modules self" "step L self env = (r, self', env')"
  shows "flaky_modules self'"
  using assms(1) step_modules [OF assms(2)] by (simp add: flaky_modules_def)

lemma flaky_step_succeeds:
  assumes "flaky_modules self" "tick_id self + 1 \<noteq> 2"
  shows "\<exists>tr self' env'. step L self env = (Inr tr, self', env') \<and> tr_tick tr = tick_id self + 1"
proof -
  let ?s = "self\<lparr>tick_id := tick_id self + 1\<rparr>"
  have m: "sensor ?s = flaky_sensor" "perception ?s = perception_run"
      "risk_module ?s = risk_run sample_lib" "policy_module ?s = policy_run sample_lib"
      "proposal_module ?s = proposal_run"
      "governance_module ?s = governance_module_run sample_lib"
      "actuation_module ?s = actuation_module_run"
    using assms(1) by (simp_all add: flaky_modules_def)
  let ?frame = "\<lparr>sf_tick = tick_id self + 1, sf_ts = 0, sf_streams = []\<rparr>"
  have se: "sensor ?s (tick_id ?s) (prev_world ?s) env = (Inr ?frame, env)"
    using assms(2) by (simp add: m flaky_sensor_def)
  have "sf_streams ?frame = []" by simp
  from stages_empty_frame [OF se this m(2-7)]
  obtain out env2 where "stages ?s env = (Inr out, env2)" by blast
  from step_of_stages [OF this, of L] show ?thesis by blast
qed

lemma flaky_step_fails:
  assumes "flaky_modules self" "tick_id self + 1 = 2"
  shows "step L self env = (Inl (StageFailure ''sensor offline''), self\<lparr>tick_id := 2\<rparr>, env)"
proof -
  let ?s = "self\<lparr>tick_id := tick_id self + 1\<rparr>"
  have "sensor ?s (tick_id ?s) (prev_world ?s) env = (Inl (StageFailure ''sensor offline''), env)"
    using assms by (simp add: flaky_modules_def flaky_sensor_def)
  then have "stages ?s env = (Inl (StageFailure ''sensor offline''), env)"
    by (rule stages_failure_surfaces(1))
  then show ?thesis using assms(2) by (simp add: step_def Let_def)
qed

lemma flaky_runs:
  "map_sum id tr_tick (fst flaky_run1) = Inr 1"
  "flaky_modules (fst (snd flaky_run1))" "tick_id (fst (snd flaky_run1)) = 1"
  "fst flaky_run2 = Inl (StageFailure ''sensor offline'')"
  "flaky_modules (fst (snd flaky_run2))" "tick_id (fst (snd flaky_run2)) = 2"
  "audit_chain (fst (snd flaky_run2)) = audit_chain (fst (snd flaky_run1))"
  "prev_world (fst (snd flaky_run2)) = prev_world (fst (snd flaky_run1))"
  "map_sum id tr_tick (fst flaky_run3) = Inr 3"
proof -
  obtain tr1 s1 e1 where r1: "flaky_run1 = (Inr tr1, s1, e1)" and t1: "tr_tick tr1 = 1"
    using flaky_step_succeeds [of flaky_kernel sample_lib sample_env]
    by (auto simp: flaky_kernel_fields flaky_run1_def)
  have m1: "flaky_modules s1" and k1: "tick_id s1 = 1"
    using flaky_modules_step [OF flaky_kernel_fields(1), of sample_lib sample_env "Inr tr1" s1 e1]
      step_modules(9) [of sample_lib flaky_kernel sample_env "Inr tr1" s1 e1] r1
    by (simp_all add: flaky_run1_def flaky_kernel_fields)
  have r2: "flaky_run2 = (Inl (StageFailure ''sensor offline''), s1\<lparr>tick_id := 2\<rparr>, e1)"
    using flaky_step_fails [OF m1, of sample_lib e1] k1 by (simp add: flaky_run2_def r1)
  have m2: "flaky_modules (s1\<lparr>tick_id := 2\<rparr>)" using m1 by (simp add: flaky_modules_def)
  obtain tr3 s3 e3 where r3: "flaky_run3 = (Inr tr3, s3, e3)" and t3: "tr_tick tr3 = 3"
    using flaky_step_succeeds [OF m2, of sample_lib e1]
    by (auto simp: flaky_run3_def r2)
  show "map_sum id tr_tick (fst flaky_run1) = Inr 1"
  "flaky_modules (fst (snd flaky_run1))" "tick_id (fst (snd flaky_run1)) = 1"
  "fst flaky_run2 = Inl (StageFailure ''sensor offline'')"
  "flaky_modules (fst (snd flaky_run2))" "tick_id (fst (snd flaky_run2)) = 2"
  "audit_chain (fst (snd flaky_run2)) = audit_chain (fst (snd flaky_run1))"
  "prev_world (fst (snd flaky_run2)) = prev_world (fst (snd flaky_run1))"
  "map_sum id tr_tick (fst flaky_run3) = Inr 3"
    using t1 m1 k1 m2 t3 by (simp_all add: r1 r2 r3)
qed

text \<open>
  C7 as stated fails: with a sensor that raises on tick 2, the first call returns tick 1, the
  second raises, and the third returns tick 3, two more than the previous successful tick.
\<close>

theorem tick_gap_after_failure:
  "map_sum id tr_tick (fst flaky_run1) = Inr 1
   \<and> fst flaky_run2 = Inl (StageFailure ''sensor offline'')
   \<and> map_sum id tr_tick (fst flaky_run3) = Inr 3"
  by (simp add: flaky_runs)

lemma failing_at_fields:
  "tick_id (failing_at n) = 0" "prev_world (failing_at n) = None"
  "audit_chain (failing_at n) = []" "gov_cfg (failing_at n) = main_cfg"
  by (simp_all add: failing_at_def AutonomyKernel_init_def)

lemma quiet_pipeline:
  "\<exists>w r intents env3 ps env4 ds ps' env5 cs env6.
     perception_run \<lparr>sf_tick = 1, sf_ts = 0, sf_streams = []\<rparr> None sample_env = (Inr w, sample_env)
   \<and> risk_run sample_lib w sample_env = (Inr r, sample_env)
   \<and> policy_run sample_lib w r sample_env = (Inr intents, env3)
   \<and> proposal_run intents w r env3 = (Inr ps, env4)
   \<and> governance_module_run sample_lib ps w r main_cfg env4 = (Inr (ds, ps'), env5)
   \<and> actuation_module_run ds w env5 = (Inr cs, env6)"
proof -
  let ?frame = "\<lparr>sf_tick = 1, sf_ts = 0, sf_streams = []\<rparr>"
  let ?w = "\<lparr>ws_tick = sf_tick ?frame, ws_ts = sf_ts ?frame,
           ws_facts = [(''raw_ops'', PDict []), (''alerts'', PList [])],
           ws_health = [(''compute'', PFloat (max 0 (1 - 0.5))), (''environment'', PFloat (max 0 (1 - 0.5))),
                        (''comms'', py_get [] ''comms_quality'' (PFloat 0.8))]\<rparr>"
  have o: "py_get (sf_streams ?frame) ''ops'' (PDict []) = PDict []"
    by (simp add: py_get_def)
  have a: "one_minus (py_get [] ''system_load'' (PFloat 0.5)) = Inr (1 - 0.5)"
    and b: "one_minus (py_get [] ''env_stress'' (PFloat 0.5)) = Inr (1 - 0.5)"
    by (simp_all add: py_get_def)
  have pe: "perception_run ?frame None sample_env = (Inr ?w, sample_env)"
    by (rule perception_run_ok [OF o a b])
  obtain r where ri: "risk_run sample_lib ?w sample_env = (Inr r, sample_env)"
    using risk_run_ok [of ?w "1 - max 0 (1 - 0.5)" "1 - max 0 (1 - 0.5)" "1 - 0.8" sample_lib sample_env]
    by (auto simp: py_get_def)
  obtain intents env3 where po: "policy_run sample_lib ?w r sample_env = (Inr intents, env3)"
    using policy_run_ok by blast
  obtain ps env4 where pr: "proposal_run intents ?w r env3 = (Inr ps, env4)"
    using proposal_run_ok [of intents ?w r env3] by auto
  obtain ds ps' env5 where go: "governance_module_run sample_lib ps ?w r main_cfg env4 = (Inr (ds, ps'), env5)"
    using governance_module_run_ok [of sample_lib ps ?w r main_cfg env4] by auto
  obtain cs env6 where ac: "actuation_module_run ds ?w env5 = (Inr cs, env6)"
    using actuation_module_run_ok [of ds ?w env5] by auto
  show ?thesis using pe ri po pr go ac by blast
qed

theorem step_failure_commits_nothing_witness:
  "fst (step sample_lib (failing_at 1) sample_env) = Inl (StageFailure ''sensor'')
   \<and> fst (step sample_lib (failing_at 2) sample_env) = Inl (StageFailure ''perception'')
   \<and> fst (step sample_lib (failing_at 3) sample_env) = Inl (StageFailure ''risk'')
   \<and> fst (step sample_lib (failing_at 4) sample_env) = Inl (StageFailure ''policy'')
   \<and> fst (step sample_lib (failing_at 5) sample_env) = Inl (StageFailure ''proposals'')
   \<and> fst (step sample_lib (failing_at 6) sample_env) = Inl (StageFailure ''governance'')
   \<and> fst (step sample_lib (failing_at 7) sample_env) = Inl (StageFailure ''actuation'')
   \<and> list_all (\<lambda>n. fst (snd (step sample_lib (failing_at n) sample_env))
                       = (failing_at n)\<lparr>tick_id := 1\<rparr>
                   \<and> audit_chain (fst (snd (step sample_lib (failing_at n) sample_env))) = []
                   \<and> prev_world (fst (snd (step sample_lib (failing_at n) sample_env))) = None
                   \<and> tick_id (fst (snd (step sample_lib (failing_at n) sample_env))) = 1)
        [1, 2, 3, 4, 5, 6, 7]"
proof -
  let ?frame = "\<lparr>sf_tick = 1, sf_ts = 0, sf_streams = []\<rparr>"
  obtain w r intents env3 ps env4 ds ps' env5 cs env6 where
    pe: "perception_run ?frame None sample_env = (Inr w, sample_env)"
    and ri: "risk_run sample_lib w sample_env = (Inr r, sample_env)"
    and po: "policy_run sample_lib w r sample_env = (Inr intents, env3)"
    and pr: "proposal_run intents w r env3 = (Inr ps, env4)"
    and go: "governance_module_run sample_lib ps w r main_cfg env4 = (Inr (ds, ps'), env5)"
    and ac: "actuation_module_run ds w env5 = (Inr cs, env6)"
    using quiet_pipeline by blast
  have se: "quiet_sensor 1 None sample_env = (Inr ?frame, sample_env)"
    by (simp add: quiet_sensor_def)
  note f = failing_at_def AutonomyKernel_init_def
  have 1: "step sample_lib (failing_at 1) sample_env
             = (Inl (StageFailure ''sensor''), (failing_at 1)\<lparr>tick_id := 1\<rparr>, sample_env)"
    using step_failure_commits_nothing [where self = "failing_at 1" and L = sample_lib and env = sample_env
        and e = "StageFailure ''sensor''" and enva = sample_env]
    by (simp add: f)
  have 2: "step sample_lib (failing_at 2) sample_env
             = (Inl (StageFailure ''perception''), (failing_at 2)\<lparr>tick_id := 1\<rparr>, sample_env)"
    using step_failure_commits_nothing [where self = "failing_at 2" and L = sample_lib and env = sample_env
        and e = "StageFailure ''perception''" and enva = sample_env and frame = ?frame
        and envb = sample_env] se
    by (simp add: f)
  have 3: "step sample_lib (failing_at 3) sample_env
             = (Inl (StageFailure ''risk''), (failing_at 3)\<lparr>tick_id := 1\<rparr>, sample_env)"
    using step_failure_commits_nothing [where self = "failing_at 3" and L = sample_lib and env = sample_env
        and e = "StageFailure ''risk''" and enva = sample_env and frame = ?frame
        and envb = sample_env and world = w and envc = sample_env] se pe
    by (simp add: f)
  have 4: "step sample_lib (failing_at 4) sample_env
             = (Inl (StageFailure ''policy''), (failing_at 4)\<lparr>tick_id := 1\<rparr>, sample_env)"
    using step_failure_commits_nothing [where self = "failing_at 4" and L = sample_lib and env = sample_env
        and e = "StageFailure ''policy''" and enva = sample_env and frame = ?frame
        and envb = sample_env and world = w and envc = sample_env and risk = r
        and envd = sample_env] se pe ri
    by (simp add: f)
  have 5: "step sample_lib (failing_at 5) sample_env
             = (Inl (StageFailure ''proposals''), (failing_at 5)\<lparr>tick_id := 1\<rparr>, env3)"
    using step_failure_commits_nothing [where self = "failing_at 5" and L = sample_lib and env = sample_env
        and e = "StageFailure ''proposals''" and enva = sample_env and frame = ?frame
        and envb = sample_env and world = w and envc = sample_env and risk = r
        and envd = env3 and intents = intents and enve = env3] se pe ri po
    by (simp add: f)
  have 6: "step sample_lib (failing_at 6) sample_env
             = (Inl (StageFailure ''governance''), (failing_at 6)\<lparr>tick_id := 1\<rparr>, env4)"
    using step_failure_commits_nothing [where self = "failing_at 6" and L = sample_lib and env = sample_env
        and e = "StageFailure ''governance''" and enva = sample_env and frame = ?frame
        and envb = sample_env and world = w and envc = sample_env and risk = r
        and envd = env3 and intents = intents and enve = env4 and proposals = ps
        and envf = env4] se pe ri po pr
    by (simp add: f)
  have 7: "step sample_lib (failing_at 7) sample_env
             = (Inl (StageFailure ''actuation''), (failing_at 7)\<lparr>tick_id := 1\<rparr>, env5)"
    using step_failure_commits_nothing [where self = "failing_at 7" and L = sample_lib and env = sample_env
        and e = "StageFailure ''actuation''" and enva = sample_env and frame = ?frame
        and envb = sample_env and world = w and envc = sample_env and risk = r
        and envd = env3 and intents = intents and enve = env4 and proposals = ps
        and envf = env5 and decisions = ds and proposals' = ps' and envg = env5]
      se pe ri po pr go
    by (simp add: f)
  show ?thesis
    by (simp add: 1 [unfolded One_nat_def] 2 3 4 5 6 7 failing_at_fields)
qed

lemma default_runs:
  "map_sum id tr_tick (fst default_run1) = Inr 1"
  "default_modules sample_lib (fst (snd default_run1))"
  "tick_id (fst (snd default_run1)) = 1"
  "reachable sample_lib (fst (snd default_run1))"
  "map_sum id tr_tick (fst default_run2) = Inr 2"
  "tick_id (fst (snd default_run2)) = 2"
proof -
  let ?K = "default_kernel sample_lib (Some main_cfg)"
  obtain tr1 s1 e1 where r1: "default_run1 = (Inr tr1, s1, e1)" and t1: "tr_tick tr1 = 1"
    using default_step_succeeds [OF default_kernel_fields(1) [of sample_lib "Some main_cfg"],
            of sample_lib sample_env]
    by (auto simp: default_kernel_fields default_run1_def)
  have st1: "step sample_lib ?K sample_env = (Inr tr1, s1, e1)"
    using r1 by (simp add: default_run1_def)
  have m1: "default_modules sample_lib s1"
    by (rule default_modules_step [OF default_kernel_fields(1) st1])
  have k1: "tick_id s1 = 1"
    using step_modules(9) [OF st1] by (simp add: default_kernel_fields)
  have re1: "reachable sample_lib s1"
    by (rule r_step [OF default_kernel_reachable st1])
  obtain tr2 s2 e2 where r2: "default_run2 = (Inr tr2, s2, e2)" and t2: "tr_tick tr2 = 2"
    using default_step_succeeds [OF m1, of sample_lib e1] k1
    by (auto simp: default_run2_def r1)
  have st2: "step sample_lib s1 e1 = (Inr tr2, s2, e2)"
    using r2 by (simp add: default_run2_def r1)
  have k2: "tick_id s2 = 2"
    using step_modules(9) [OF st2] k1 by simp
  show "map_sum id tr_tick (fst default_run1) = Inr 1"
  "default_modules sample_lib (fst (snd default_run1))"
  "tick_id (fst (snd default_run1)) = 1"
  "reachable sample_lib (fst (snd default_run1))"
  "map_sum id tr_tick (fst default_run2) = Inr 2"
  "tick_id (fst (snd default_run2)) = 2"
    using t1 m1 k1 re1 t2 k2 by (simp_all add: r1 r2)
qed

lemma default_run1_collapse:
  "step sample_lib (default_kernel sample_lib (Some main_cfg)) sample_env
     = (fst default_run1, fst (snd default_run1), snd (snd default_run1))"
  by (simp add: default_run1_def)

lemma default_run2_collapse:
  "step sample_lib (fst (snd default_run1)) (snd (snd default_run1))
     = (fst default_run2, fst (snd default_run2), snd (snd default_run2))"
  by (simp add: default_run2_def)

theorem step_appends_six_entries_witness:
  "map_sum id tr_tick (fst default_run1) = Inr 1
   \<and> map ae_kind (audit_chain (fst (snd default_run1)))
       = [''frame'', ''risk'', ''intents'', ''proposals'', ''decisions'', ''actuation'']
   \<and> map ae_tick (audit_chain (fst (snd default_run1))) = replicate 6 1
   \<and> map_sum id tr_tick (fst default_run2) = Inr 2
   \<and> map ae_kind (audit_chain (fst (snd default_run2)))
       = [''frame'', ''risk'', ''intents'', ''proposals'', ''decisions'', ''actuation'',
          ''frame'', ''risk'', ''intents'', ''proposals'', ''decisions'', ''actuation'']
   \<and> map ae_tick (audit_chain (fst (snd default_run2))) = replicate 6 1 @ replicate 6 2"
proof -
  obtain tr1 where f1: "fst default_run1 = Inr tr1" and t1: "tr_tick tr1 = 1"
    using default_runs(1) by (cases "fst default_run1") auto
  obtain tr2 where f2: "fst default_run2 = Inr tr2" and t2: "tr_tick tr2 = 2"
    using default_runs(5) by (cases "fst default_run2") auto
  note A = step_appends_six_entries [OF default_kernel_reachable default_run1_collapse]
  note B = step_appends_six_entries [OF default_runs(4) default_run2_collapse]
  have a: "audit_chain (fst (snd default_run1)) = tr_audit_entries tr1"
    "length (tr_audit_entries tr1) = 6"
    "map ae_kind (tr_audit_entries tr1)
       = [''frame'', ''risk'', ''intents'', ''proposals'', ''decisions'', ''actuation'']"
    "\<forall>e \<in> set (tr_audit_entries tr1). ae_tick e = 1"
    using A t1 by (simp_all add: f1 default_kernel_fields)
  have b: "audit_chain (fst (snd default_run2)) = tr_audit_entries tr1 @ tr_audit_entries tr2"
    "length (tr_audit_entries tr2) = 6"
    "map ae_kind (tr_audit_entries tr2)
       = [''frame'', ''risk'', ''intents'', ''proposals'', ''decisions'', ''actuation'']"
    "\<forall>e \<in> set (tr_audit_entries tr2). ae_tick e = 2"
    using B t2 a(1) by (simp_all add: f2)
  have "map ae_tick (tr_audit_entries tr1) = replicate 6 1"
    using map_constant [OF a(4)] a(2) by simp
  moreover have "map ae_tick (tr_audit_entries tr2) = replicate 6 2"
    using map_constant [OF b(4)] b(2) by simp
  ultimately show ?thesis
    using a b t1 t2 by (simp add: f1 f2)
qed

theorem tick_id_increments_witness:
  "tick_id (default_kernel sample_lib (Some main_cfg)) = 0
   \<and> map_sum id tr_tick (fst default_run1) = Inr 1
   \<and> tick_id (fst (snd default_run1)) = 1
   \<and> map_sum id tr_tick (fst default_run2) = Inr 2
   \<and> tick_id (fst (snd default_run2)) = 2"
proof -
  obtain tr1 where f1: "fst default_run1 = Inr tr1"
    using default_runs(1) by (cases "fst default_run1") auto
  obtain tr2 where f2: "fst default_run2 = Inr tr2"
    using default_runs(5) by (cases "fst default_run2") auto
  have c1: "step sample_lib (default_kernel sample_lib (Some main_cfg)) sample_env
     = (Inr tr1, fst (snd default_run1), snd (snd default_run1))"
    using default_run1_collapse by (simp add: f1)
  have c2: "step sample_lib (fst (snd default_run1)) (snd (snd default_run1))
     = (Inr tr2, fst (snd default_run2), snd (snd default_run2))"
    using default_run2_collapse by (simp add: f2)
  show ?thesis
    using tick_id_increments [where L = sample_lib
        and se = sensor_read and pe = perception_run and ri = "risk_run sample_lib"
        and po = "policy_run sample_lib" and pr = proposal_run
        and go = "governance_module_run sample_lib" and ac = actuation_module_run
        and cfg = "Some main_cfg"
        and enva = sample_env and tra = tr1 and selfa = "fst (snd default_run1)"
        and enva' = "snd (snd default_run1)"
        and self = "fst (snd default_run1)" and env = "snd (snd default_run1)"
        and r = "Inr tr2" and self' = "fst (snd default_run2)" and env' = "snd (snd default_run2)"
        and selfb = "default_kernel sample_lib (Some main_cfg)" and envb = sample_env
        and trb = tr1 and selfc = "fst (snd default_run1)"
        and envc = "snd (snd default_run1)" and envc' = "snd (snd default_run1)"
        and trc = tr2 and selfd = "fst (snd default_run2)"
        and envd = "snd (snd default_run2)"
        and kind = "''frame''" and payload = listed_payload
        and selfe = "default_kernel sample_lib None" and enve = sample_env
        and entry = "fst (audit sample_lib ''frame'' listed_payload
                            (default_kernel sample_lib None) sample_env)"
        and selff = "fst (snd (audit sample_lib ''frame'' listed_payload
                                 (default_kernel sample_lib None) sample_env))"
        and envf = "snd (snd (audit sample_lib ''frame'' listed_payload
                                (default_kernel sample_lib None) sample_env))"]
      c1 c2
    by (auto simp: f1 f2 default_kernel_def [symmetric] default_kernel_fields)
qed

section \<open>Decisions and actuation in a tick\<close>

lemma stages_governance_actuation:
  assumes st: "stages self env = (Inr out, env')"
    and g: "governance_module self = governance_module_run L"
    and a: "actuation_module self = actuation_module_run"
  shows "\<exists>ps w r e5 e6 w'.
           governance_run L ps w r (gov_cfg self) e5 = ((so_decisions out, so_proposals out), e6)
         \<and> actuation_run (so_decisions out) w' e6 = (so_actuation out, env')"
proof -
  obtain frame env1 where se: "sensor self (tick_id self) (prev_world self) env = (Inr frame, env1)"
    using st by (auto simp: stages_def split: prod.splits sum.splits)
  obtain world env2 where pe: "perception self frame (prev_world self) env1 = (Inr world, env2)"
    using st se by (auto simp: stages_def split: prod.splits sum.splits)
  obtain risk env3 where ri: "risk_module self world env2 = (Inr risk, env3)"
    using st se pe by (auto simp: stages_def split: prod.splits sum.splits)
  obtain intents env4 where po: "policy_module self world risk env3 = (Inr intents, env4)"
    using st se pe ri by (auto simp: stages_def split: prod.splits sum.splits)
  obtain ps env5 where pr: "proposal_module self intents world risk env4 = (Inr ps, env5)"
    using st se pe ri po by (auto simp: stages_def split: prod.splits sum.splits)
  obtain ds ps' env6 where gr: "governance_run L ps world risk (gov_cfg self) env5 = ((ds, ps'), env6)"
    by (metis prod.collapse)
  have go: "governance_module self ps world risk (gov_cfg self) env5 = (Inr (ds, ps'), env6)"
    by (simp add: g governance_module_run_def gr)
  obtain cs env7 where ar: "actuation_run ds world env6 = (cs, env7)"
    by (metis prod.collapse)
  have ac: "actuation_module self ds world env6 = (Inr cs, env7)"
    by (simp add: a actuation_module_run_def ar)
  have "stages self env =
          (Inr \<lparr>so_frame = frame, so_world = world, so_risk = risk, so_intents = intents,
                so_proposals = ps', so_decisions = ds, so_actuation = cs\<rparr>, env7)"
    by (simp only: stages_def se pe ri po pr go ac prod.case sum.case)
  with st have "so_decisions out = ds" "so_proposals out = ps'" "so_actuation out = cs" "env' = env7"
    by auto
  then show ?thesis using gr ar by blast
qed

lemma governance_actuation_counts:
  assumes gov: "governance_run L ps world risk config env = ((ds, ps'), env1)"
    and act: "actuation_run ds world' env1' = (cmds, env2)"
  shows "length ds = length ps'
       \<and> map de_proposal_id ds = map pr_id ps'
       \<and> length cmds = length (filter (\<lambda>d. de_status d = AUTO_APPROVED) ds)
       \<and> map ac_payload cmds = map auto_payload (filter (\<lambda>d. de_status d = AUTO_APPROVED) ds)
       \<and> (distinct (map de_id ds) \<longrightarrow>
            (\<forall>d \<in> set ds. de_status d = AUTO_APPROVED \<longrightarrow>
               length (filter (\<lambda>c. map_of (ac_payload c) ''decision_id'' = Some (PStr (de_id d)))
                         cmds) = 1))"
proof -
  have ps': "ps' = snd (fst (governance_run L ps world risk config env))"
    by (simp add: gov)
  have "map pr_id ps' = map pr_id ps"
    unfolding ps' governance_run_proposals by (simp add: o_def)
  moreover from this have "length ps' = length ps"
    by (rule map_eq_imp_length_eq)
  ultimately show ?thesis
    using governance_actuation_module_counts [OF gov act] by simp
qed

lemma snapshot_counts:
  fixes self :: "'m AutonomyKernel"
  assumes s: "step La self enva = (Inr tr, self', enva')"
    and g: "governance_module self = governance_module_run Lb"
    and a: "actuation_module self = actuation_module_run"
  shows "length (tr_decisions tr) = length (tr_proposals tr)
      \<and> map de_proposal_id (tr_decisions tr) = map pr_id (tr_proposals tr)
      \<and> length (tr_actuation tr)
          = length (filter (\<lambda>d. de_status d = AUTO_APPROVED) (tr_decisions tr))
      \<and> map ac_payload (tr_actuation tr)
          = map auto_payload (filter (\<lambda>d. de_status d = AUTO_APPROVED) (tr_decisions tr))
      \<and> (distinct (map de_id (tr_decisions tr)) \<longrightarrow>
            (\<forall>d \<in> set (tr_decisions tr). de_status d = AUTO_APPROVED \<longrightarrow>
               length (filter (\<lambda>c. map_of (ac_payload c) ''decision_id'' = Some (PStr (de_id d)))
                         (tr_actuation tr)) = 1))"
proof (rule step_Inr [OF s])
  fix out :: StageOutputs and env1 :: "'m pyenv"
  let ?s = "self\<lparr>tick_id := tick_id self + 1\<rparr>"
  assume st: "stages ?s enva = (Inr out, env1)"
    and t: "tr = \<lparr>tr_tick = tick_id self + 1, tr_sensor_frame = so_frame out,
                  tr_world = so_world out, tr_risk = so_risk out,
                  tr_intents = so_intents out, tr_proposals = so_proposals out,
                  tr_decisions = so_decisions out, tr_actuation = so_actuation out,
                  tr_audit_entries = tr_audit_entries tr\<rparr>"
  have f: "tr_proposals tr = so_proposals out" "tr_decisions tr = so_decisions out"
    "tr_actuation tr = so_actuation out"
    by (subst t, simp)+
  have g': "governance_module ?s = governance_module_run Lb"
    and a': "actuation_module ?s = actuation_module_run"
    using g a by simp_all
  from stages_governance_actuation [OF st g' a']
  obtain ps w r e5 e6 w' where
    gr: "governance_run Lb ps w r (gov_cfg ?s) e5 = ((so_decisions out, so_proposals out), e6)"
    and ar: "actuation_run (so_decisions out) w' e6 = (so_actuation out, env1)"
    by blast
  show ?thesis
    unfolding f by (rule governance_actuation_counts [OF gr ar])
qed

text \<open>
  C6. Under the default governance and actuation modules there is one decision per proposal,
  in proposal order, the \<open>i\<close>-th decision naming the id of the \<open>i\<close>-th proposal; there is one
  actuation command per AUTO_APPROVED decision, in decision order, its payload naming that
  decision and its proposal; where the decision ids are pairwise distinct, as identifiers
  drawn from \<open>uuid4\<close> are, exactly one command names each AUTO_APPROVED decision. This holds
  of the two modules run on any list of proposals, and of the proposals, decisions and
  commands in the snapshot of every tick of a kernel built with them.
\<close>

theorem decisions_and_actuation_cardinality:
  "(governance_run L ps world risk config env = ((ds, ps'), env1)
      \<and> actuation_run ds world' env1' = (cmds, env2) \<longrightarrow>
        length ds = length ps \<and> map de_proposal_id ds = map pr_id ps
      \<and> length cmds = length (filter (\<lambda>d. de_status d = AUTO_APPROVED) ds)
      \<and> map ac_payload cmds = map auto_payload (filter (\<lambda>d. de_status d = AUTO_APPROVED) ds)
      \<and> (distinct (map de_id ds) \<longrightarrow>
            (\<forall>d \<in> set ds. de_status d = AUTO_APPROVED \<longrightarrow>
               length (filter (\<lambda>c. map_of (ac_payload c) ''decision_id'' = Some (PStr (de_id d)))
                         cmds) = 1)))
   \<and> (step La self enva = (Inr tr, self', enva')
      \<and> governance_module self = governance_module_run Lb
      \<and> actuation_module self = actuation_module_run \<longrightarrow>
        length (tr_decisions tr) = length (tr_proposals tr)
      \<and> map de_proposal_id (tr_decisions tr) = map pr_id (tr_proposals tr)
      \<and> length (tr_actuation tr)
          = length (filter (\<lambda>d. de_status d = AUTO_APPROVED) (tr_decisions tr))
      \<and> map ac_payload (tr_actuation tr)
          = map auto_payload (filter (\<lambda>d. de_status d = AUTO_APPROVED) (tr_decisions tr))
      \<and> (distinct (map de_id (tr_decisions tr)) \<longrightarrow>
            (\<forall>d \<in> set (tr_decisions tr). de_status d = AUTO_APPROVED \<longrightarrow>
               length (filter (\<lambda>c. map_of (ac_payload c) ''decision_id'' = Some (PStr (de_id d)))
                         (tr_actuation tr)) = 1)))"
  using governance_actuation_module_counts [of L ps world risk config env ds ps' env1 world' env1' cmds env2]
    snapshot_counts [of La self enva tr self' enva' Lb]
  by blast

lemma default_stages1:
  "map_sum id (\<lambda>out. (map pr_source_intent (so_proposals out), map pr_id (so_proposals out),
                       map de_status (so_decisions out), map de_id (so_decisions out),
                       map ac_payload (so_actuation out)))
     (fst (stages ((default_kernel sample_lib (Some main_cfg))\<lparr>tick_id := 1\<rparr>) sample_env))
   = Inr ([''CONTINUE''], [''id-1''], [AUTO_APPROVED], [''id-2''],
          [[(''decision_id'', PStr ''id-2''), (''proposal_id'', PStr ''id-1''),
            (''mode'', PStr ''EXECUTE'')]])"
  by code_simp

lemma default_run1_snapshot:
  "\<exists>tr. fst default_run1 = Inr tr
      \<and> map pr_source_intent (tr_proposals tr) = [''CONTINUE'']
      \<and> map pr_id (tr_proposals tr) = [''id-1'']
      \<and> map de_status (tr_decisions tr) = [AUTO_APPROVED]
      \<and> map de_id (tr_decisions tr) = [''id-2'']
      \<and> map ac_payload (tr_actuation tr)
          = [[(''decision_id'', PStr ''id-2''), (''proposal_id'', PStr ''id-1''),
              (''mode'', PStr ''EXECUTE'')]]"
proof -
  let ?K = "default_kernel sample_lib (Some main_cfg)"
  let ?s = "?K\<lparr>tick_id := tick_id ?K + 1\<rparr>"
  have s1: "?s = ?K\<lparr>tick_id := 1\<rparr>" by (simp add: default_kernel_fields)
  obtain r env1 where st: "stages ?s sample_env = (r, env1)" by (metis prod.collapse)
  obtain out where r: "r = Inr out"
    using default_stages1 st unfolding s1 by (cases r) auto
  have o: "map pr_source_intent (so_proposals out) = [''CONTINUE'']"
      "map pr_id (so_proposals out) = [''id-1'']"
      "map de_status (so_decisions out) = [AUTO_APPROVED]"
      "map de_id (so_decisions out) = [''id-2'']"
      "map ac_payload (so_actuation out)
          = [[(''decision_id'', PStr ''id-2''), (''proposal_id'', PStr ''id-1''),
              (''mode'', PStr ''EXECUTE'')]]"
    using default_stages1 st unfolding s1 by (simp_all add: r)
  from step_of_stages [OF st [unfolded r], of sample_lib] o
  show ?thesis by (auto simp: default_run1_def)
qed

theorem decisions_and_actuation_cardinality_witness:
  "length (fst (fst sample_governance)) = length sample_proposals
   \<and> map de_status (fst (fst sample_governance)) = [AUTO_APPROVED, REQUIRES_HUMAN]
   \<and> map ac_payload (fst sample_actuation) = [auto_payload (hd (fst (fst sample_governance)))]
   \<and> (case fst default_run1 of
         Inl e \<Rightarrow> False
       | Inr tr \<Rightarrow>
           map pr_source_intent (tr_proposals tr) = [''CONTINUE'']
           \<and> map de_status (tr_decisions tr) = [AUTO_APPROVED]
           \<and> map de_proposal_id (tr_decisions tr) = map pr_id (tr_proposals tr)
           \<and> length (tr_actuation tr) = 1
           \<and> map ac_payload (tr_actuation tr) = map auto_payload (tr_decisions tr)
           \<and> length (filter (\<lambda>c. map_of (ac_payload c) ''decision_id'' = Some (PStr ''id-2''))
                       (tr_actuation tr)) = 1)"
proof -
  obtain tr :: TickResult where f: "fst default_run1 = Inr tr"
    and o: "map pr_source_intent (tr_proposals tr) = [''CONTINUE'']"
      "map de_status (tr_decisions tr) = [AUTO_APPROVED]"
      "map de_id (tr_decisions tr) = [''id-2'']"
    using default_run1_snapshot by (elim exE conjE)
  have c: "step sample_lib (default_kernel sample_lib (Some main_cfg)) sample_env
     = (Inr tr, fst (snd default_run1), snd (snd default_run1))"
    using default_run1_collapse by (simp add: f)
  have m: "governance_module (default_kernel sample_lib (Some main_cfg))
             = governance_module_run sample_lib"
    "actuation_module (default_kernel sample_lib (Some main_cfg)) = actuation_module_run"
    using default_kernel_fields(1) [of sample_lib "Some main_cfg"]
    by (simp_all add: default_modules_def)
  obtain d where ds: "tr_decisions tr = [d]" and d: "de_status d = AUTO_APPROVED" "de_id d = ''id-2''"
    using o(2,3) by (cases "tr_decisions tr") auto
  note T = decisions_and_actuation_cardinality [where L = sample_lib and ps = sample_proposals and world = sample_world
      and risk = "sample_risk 30" and config = main_cfg and env = sample_env
      and ds = "fst (fst sample_governance)" and ps' = "snd (fst sample_governance)"
      and ?env1.0 = "snd sample_governance" and world' = sample_world
      and env1' = "snd sample_governance" and cmds = "fst sample_actuation"
      and ?env2.0 = "snd sample_actuation"
      and La = sample_lib and self = "default_kernel sample_lib (Some main_cfg)"
      and enva = sample_env and tr = tr and self' = "fst (snd default_run1)"
      and enva' = "snd (snd default_run1)" and Lb = sample_lib]
  have A: "length (fst (fst sample_governance)) = length sample_proposals
   \<and> map de_status (fst (fst sample_governance)) = [AUTO_APPROVED, REQUIRES_HUMAN]
   \<and> map ac_payload (fst sample_actuation) = [auto_payload (hd (fst (fst sample_governance)))]"
    using T sample_governance_collapse sample_actuation_collapse
    by (simp add: sample_governance_decisions)
  have B: "map pr_source_intent (tr_proposals tr) = [''CONTINUE'']
           \<and> map de_status (tr_decisions tr) = [AUTO_APPROVED]
           \<and> map de_proposal_id (tr_decisions tr) = map pr_id (tr_proposals tr)
           \<and> length (tr_actuation tr) = 1
           \<and> map ac_payload (tr_actuation tr) = map auto_payload (tr_decisions tr)
           \<and> length (filter (\<lambda>c. map_of (ac_payload c) ''decision_id'' = Some (PStr ''id-2''))
                       (tr_actuation tr)) = 1"
    using T c m o ds d by simp
  show ?thesis using A B by (simp add: f)
qed

section \<open>The snapshot\<close>

text \<open>
  C10, as amended. The snapshot of a call of \<open>step\<close> that returns carries the tick id \<open>N\<close> of
  the call, one more than the counter before it; its audit entries are six, all of tick \<open>N\<close>,
  and they are the last six entries of the chain, in order. With the default modules the
  sensor frame, the world state, the risk report, every proposal, every decision and every
  actuation command carry \<open>N\<close> as well: each of these ticks is copied from the object before
  it, down from the tick the kernel hands to the sensor.
\<close>

theorem snapshot_ticks:
  assumes "step L self env = (Inr tr, self', env')"
  shows "tr_tick tr = tick_id self + 1 \<and> tick_id self' = tr_tick tr
       \<and> length (tr_audit_entries tr) = 6
       \<and> (\<forall>e \<in> set (tr_audit_entries tr). ae_tick e = tr_tick tr)
       \<and> tr_audit_entries tr = drop (length (audit_chain self') - 6) (audit_chain self')
       \<and> (default_modules L self \<longrightarrow>
            sf_tick (tr_sensor_frame tr) = tr_tick tr
            \<and> ws_tick (tr_world tr) = tr_tick tr
            \<and> rr_tick (tr_risk tr) = tr_tick tr
            \<and> (\<forall>p \<in> set (tr_proposals tr). pr_tick p = tr_tick tr)
            \<and> (\<forall>d \<in> set (tr_decisions tr). de_tick d = tr_tick tr)
            \<and> (\<forall>c \<in> set (tr_actuation tr). ac_tick c = tr_tick tr))"
proof -
  have t: "tr_tick tr = tick_id self + 1"
    by (rule step_returns_tick [OF assms])
  have k: "tick_id self' = tick_id self + 1"
    by (rule step_modules(9) [OF assms])
  note E = step_entries_length [OF assms]
  have ticks: "\<forall>e \<in> set (tr_audit_entries tr). ae_tick e = tr_tick tr"
    unfolding t by (rule step_Inr [OF assms]) simp
  have last6: "tr_audit_entries tr = drop (length (audit_chain self') - 6) (audit_chain self')"
    using E by simp
  have dflt: "sf_tick (tr_sensor_frame tr) = tr_tick tr
            \<and> ws_tick (tr_world tr) = tr_tick tr
            \<and> rr_tick (tr_risk tr) = tr_tick tr
            \<and> (\<forall>p \<in> set (tr_proposals tr). pr_tick p = tr_tick tr)
            \<and> (\<forall>d \<in> set (tr_decisions tr). de_tick d = tr_tick tr)
            \<and> (\<forall>c \<in> set (tr_actuation tr). ac_tick c = tr_tick tr)"
    if "default_modules L self"
    using default_step_succeeds [OF that, of L env] assms t by auto
  show ?thesis using t k E(2) ticks last6 dflt by simp
qed

theorem snapshot_ticks_witness:
  "case fst default_run1 of
     Inl e \<Rightarrow> False
   | Inr tr \<Rightarrow>
       tr_tick tr = 1 \<and> sf_tick (tr_sensor_frame tr) = 1 \<and> ws_tick (tr_world tr) = 1
       \<and> rr_tick (tr_risk tr) = 1
       \<and> list_all (\<lambda>p. pr_tick p = 1) (tr_proposals tr)
       \<and> list_all (\<lambda>d. de_tick d = 1) (tr_decisions tr)
       \<and> list_all (\<lambda>c. ac_tick c = 1) (tr_actuation tr)
       \<and> list_all (\<lambda>e. ae_tick e = 1) (tr_audit_entries tr)
       \<and> length (tr_audit_entries tr) = 6
       \<and> tr_audit_entries tr = audit_chain (fst (snd default_run1))"
proof -
  obtain tr1 where f1: "fst default_run1 = Inr tr1" and t1: "tr_tick tr1 = 1"
    using default_runs(1) by (cases "fst default_run1") auto
  have c1: "step sample_lib (default_kernel sample_lib (Some main_cfg)) sample_env
     = (Inr tr1, fst (snd default_run1), snd (snd default_run1))"
    using default_run1_collapse by (simp add: f1)
  have ch: "audit_chain (fst (snd default_run1)) = tr_audit_entries tr1"
    using step_entries_length(1) [OF c1] by (simp add: default_kernel_fields)
  show ?thesis
    using snapshot_ticks [OF c1] t1 ch
    by (simp add: f1 default_kernel_fields list_all_iff)
qed

lemma stale_run:
  "\<exists>tr s e. stale_run1 = (Inr tr, s, e) \<and> tr_tick tr = 1
      \<and> tr_sensor_frame tr = \<lparr>sf_tick = 0, sf_ts = 0, sf_streams = []\<rparr>"
proof -
  let ?s = "stale_kernel\<lparr>tick_id := tick_id stale_kernel + 1\<rparr>"
  let ?frame = "\<lparr>sf_tick = 0, sf_ts = 0, sf_streams = []\<rparr>"
  have m: "sensor ?s = stale_sensor" "perception ?s = perception_run"
      "risk_module ?s = risk_run sample_lib" "policy_module ?s = policy_run sample_lib"
      "proposal_module ?s = proposal_run"
      "governance_module ?s = governance_module_run sample_lib"
      "actuation_module ?s = actuation_module_run"
    and k: "tick_id stale_kernel = 0"
    by (simp_all add: stale_kernel_def AutonomyKernel_init_def)
  have se: "sensor ?s (tick_id ?s) (prev_world ?s) sample_env = (Inr ?frame, sample_env)"
    by (simp add: m stale_sensor_def)
  have "sf_streams ?frame = []" by simp
  from stages_empty_frame [OF se this m(2-7)]
  obtain out env2 where st: "stages ?s sample_env = (Inr out, env2)" and fr: "so_frame out = ?frame"
    by blast
  from step_of_stages [OF st, of sample_lib] fr k show ?thesis
    by (auto simp: stale_run1_def)
qed

text \<open>
  C10 as stated fails: the kernel does not check what the modules return, and with a sensor
  that stamps its frames with tick 0 the snapshot of tick 1 holds a frame of tick 0.
\<close>

theorem snapshot_stale_frame_tick:
  "map_sum id (\<lambda>tr. (tr_tick tr, sf_tick (tr_sensor_frame tr))) (fst stale_run1) = Inr (1, 0)"
proof -
  obtain tr s e where r: "stale_run1 = (Inr tr, s, e)" and t: "tr_tick tr = 1"
    and f: "tr_sensor_frame tr = \<lparr>sf_tick = 0, sf_ts = 0, sf_streams = []\<rparr>"
    using stale_run by blast
  show ?thesis by (simp add: r t f)
qed

section \<open>The hash chain\<close>

lemma entry_raw_sorted:
  "sort_key fst (entry_raw e) =
     [(''id'', PStr (ae_id e)), (''kind'', PStr (ae_kind e)), (''payload'', PDict (ae_payload e)),
      (''prev_hash'', PStr (ae_prev_hash e)), (''tick'', PInt (ae_tick e)),
      (''ts'', PFloat (ae_ts e))]"
  by (simp add: entry_raw_def less_eq_char_def less_char_def)

lemma entry_raw_keys: "distinct (map fst (entry_raw e))"
  by (simp add: entry_raw_def)

lemma filter_distinct_key:
  assumes "distinct (map f zs)" "k \<in> set zs"
  shows "filter (\<lambda>x. f k = f x) zs = [k]"
  using assms
proof (induction zs)
  case Nil
  then show ?case by simp
next
  case (Cons z zs)
  show ?case
  proof (cases "k = z")
    case True
    have "filter (\<lambda>x. f z = f x) zs = []"
      using Cons.prems(1) by (auto simp: filter_empty_conv)
    then show ?thesis using True by simp
  next
    case False
    then have "k \<in> set zs" using Cons.prems(2) by simp
    moreover have "f k \<noteq> f z" using Cons.prems(1) \<open>k \<in> set zs\<close> by (auto simp: image_iff)
    ultimately show ?thesis using Cons by simp
  qed
qed

text \<open>With keys that are pairwise distinct, the sorted items do not depend on insertion order.\<close>

lemma sort_key_reorder:
  assumes d: "distinct (map f xs)" and m: "mset ys = mset xs"
  shows "sort_key f ys = sort_key f xs"
proof (rule properties_for_sort_key)
  show "mset (sort_key f xs) = mset ys" using m by simp
  show "sorted (map f (sort_key f xs))" by simp
  fix k assume "k \<in> set (sort_key f xs)"
  then have kx: "k \<in> set xs" by simp
  then have ky: "k \<in> set ys" using m by (metis mset_eq_setD)
  have dy: "distinct (map f ys)"
    using d m by (metis distinct_map mset_eq_imp_distinct_iff mset_eq_setD distinct_map)
  have ds: "distinct (map f (sort_key f xs))"
    using d by (metis distinct_map distinct_sort set_sort)
  have "filter (\<lambda>x. f k = f x) (sort_key f xs) = [k]"
    using filter_distinct_key [OF ds] kx by simp
  moreover have "filter (\<lambda>x. f k = f x) ys = [k]"
    by (rule filter_distinct_key [OF dy ky])
  ultimately show "filter (\<lambda>x. f k = f x) (sort_key f xs) = filter (\<lambda>x. f k = f x) ys" by simp
qed

lemma sha256_reorder:
  assumes "distinct (map fst xs)" "mset ys = mset xs"
  shows "sha256 L ys = sha256 L xs"
  using sort_key_reorder [OF assms] by (simp add: sha256_def)

lemma sha256_payload_reorder:
  assumes "distinct (map fst (ae_payload e))" "mset q = mset (ae_payload e)"
  shows "sha256 L (entry_raw (e\<lparr>ae_payload := q\<rparr>)) = sha256 L (entry_raw e)"
  using sort_key_reorder [OF assms]
  by (simp add: sha256_def entry_raw_sorted)

lemma linked_index:
  assumes "linked prev es"
  shows "(es \<noteq> [] \<longrightarrow> ae_prev_hash (hd es) = prev)
       \<and> (\<forall>i. Suc i < length es \<longrightarrow> ae_prev_hash (es ! Suc i) = ae_hash (es ! i))"
  using assms
proof (induction es arbitrary: prev)
  case Nil
  then show ?case by simp
next
  case (Cons e es)
  have l: "linked (ae_hash e) es" and p: "ae_prev_hash e = prev" using Cons.prems by simp_all
  note IH = Cons.IH [OF l]
  have "ae_prev_hash ((e # es) ! Suc i) = ae_hash ((e # es) ! i)" if "Suc i < length (e # es)" for i
  proof (cases i)
    case 0
    then have "es \<noteq> []" using that by auto
    then show ?thesis using IH 0 by (simp add: hd_conv_nth)
  next
    case (Suc j)
    then show ?thesis using IH that by simp
  qed
  then show ?case using p by simp
qed

lemma list_all2_map_eq:
  "list_all2 (\<lambda>x y. f x = g y) xs ys \<Longrightarrow> map f xs = map g ys"
  by (induction rule: list_all2_induct) simp_all

lemma insort_parallel:
  assumes "list_all2 R xs ys" "R x y" "\<And>a b. R a b \<Longrightarrow> f a = g b"
  shows "list_all2 R (insort_key f x xs) (insort_key g y ys)"
  using assms(1)
proof (induction rule: list_all2_induct)
  case Nil
  then show ?case using assms(2) by simp
next
  case (Cons a as b bs)
  have "f a = g b" "f x = g y" using assms(3) Cons.hyps(1) assms(2) by auto
  then show ?case using Cons assms(2) by simp
qed

lemma sort_parallel:
  assumes "list_all2 R xs ys" "\<And>a b. R a b \<Longrightarrow> f a = g b"
  shows "list_all2 R (sort_key f xs) (sort_key g ys)"
  using assms(1)
proof (induction rule: list_all2_induct)
  case Nil
  then show ?case by simp
next
  case (Cons a as b bs)
  then show ?case using insort_parallel [of R _ _ a b f g] assms(2) by simp
qed

lemma same_content_dumps:
  "same_content v w \<Longrightarrow> json_dumps L v = json_dumps L w"
proof (induction rule: same_content.induct)
  case (sc_refl v)
  show ?case by simp
next
  case (sc_list vs ws)
  then have "list_all2 (\<lambda>v w. json_dumps L v = json_dumps L w) vs ws"
    by (simp add: list_all2_conv_all_nth)
  from list_all2_map_eq [OF this] show ?case by simp
next
  case (sc_tuple vs ws)
  then have "list_all2 (\<lambda>v w. json_dumps L v = json_dumps L w) vs ws"
    by (simp add: list_all2_conv_all_nth)
  from list_all2_map_eq [OF this] show ?case by simp
next
  case (sc_dict xs zs ys)
  let ?R = "\<lambda>x z. fst x = fst z \<and> json_dumps L (snd x) = json_dumps L (snd z)"
  let ?g = "\<lambda>kv. str_escape L (fst kv) @ '': '' @ json_dumps L (snd kv)"
  have R: "list_all2 ?R xs zs"
    using sc_dict.IH by (simp add: list_all2_conv_all_nth)
  have keys: "map fst xs = map fst zs"
    using R by (intro list_all2_map_eq) (simp add: list_all2_conv_all_nth)
  have dz: "distinct (map fst zs)" using sc_dict.hyps(2) keys by simp
  have ys: "sort_key fst ys = sort_key fst zs"
    by (rule sort_key_reorder [OF dz sc_dict.hyps(1)])
  have "list_all2 ?R (sort_key fst xs) (sort_key fst zs)"
    by (rule sort_parallel [OF R]) simp
  then have "list_all2 (\<lambda>x z. ?g x = ?g z) (sort_key fst xs) (sort_key fst zs)"
    by (simp add: list_all2_conv_all_nth)
  from list_all2_map_eq [OF this] show ?case by (simp add: ys)
qed

lemma entry_text:
  "json_dumps L (PDict (entry_raw e)) =
     ''{'' @ str_escape L ''id'' @ '': '' @ str_escape L (ae_id e)
       @ '', '' @ str_escape L ''kind'' @ '': '' @ str_escape L (ae_kind e)
       @ '', '' @ str_escape L ''payload'' @ '': '' @ json_dumps L (PDict (ae_payload e))
       @ '', '' @ str_escape L ''prev_hash'' @ '': '' @ str_escape L (ae_prev_hash e)
       @ '', '' @ str_escape L ''tick'' @ '': '' @ int_repr (ae_tick e)
       @ '', '' @ str_escape L ''ts'' @ '': '' @ float_repr L (ae_ts e) @ ''}''"
  by (simp add: entry_raw_sorted)

lemma same_content_payload:
  assumes "same_content (PDict (ae_payload e)) (PDict q)"
  shows "sha256 L (entry_raw (e\<lparr>ae_payload := q\<rparr>)) = sha256 L (entry_raw e)"
  using same_content_dumps [OF assms, of L]
  by (simp only: sha256_def entry_text) simp

text \<open>
  C3. In every chain that \<open>__init__\<close>, \<open>step\<close> and \<open>_audit\<close> can build, the first entry's
  previous hash is the genesis sentinel of 64 characters \<open>0\<close>, every later entry's previous
  hash is the hash of the entry before it, and every entry's hash is the SHA-256 hex digest of
  the JSON text of its six fields with the keys in sorted order: \<open>id\<close>, \<open>kind\<close>, \<open>payload\<close>,
  \<open>prev_hash\<close>, \<open>tick\<close>, \<open>ts\<close>. The same content gives the same hash: whatever the order in which
  the keys were inserted, in the record itself and at every depth of the payload, and for any
  two entries that record the same six fields. The kernel's own previous hash is the hash of
  the last entry.
\<close>

theorem audit_chain_hash_linked:
  assumes "reachable L self"
  shows "(audit_chain self \<noteq> [] \<longrightarrow>
            ae_prev_hash (hd (audit_chain self)) = replicate 64 (CHR ''0''))
       \<and> (\<forall>i. Suc i < length (audit_chain self) \<longrightarrow>
              ae_prev_hash (audit_chain self ! Suc i) = ae_hash (audit_chain self ! i))
       \<and> (\<forall>e \<in> set (audit_chain self).
              ae_hash e = sha256_hexdigest L (json_dumps L (PDict
                 [(''id'', PStr (ae_id e)), (''tick'', PInt (ae_tick e)), (''ts'', PFloat (ae_ts e)),
                  (''kind'', PStr (ae_kind e)), (''payload'', PDict (ae_payload e)),
                  (''prev_hash'', PStr (ae_prev_hash e))]))
              \<and> ae_hash e = sha256_hexdigest L
                   (''{'' @ str_escape L ''id'' @ '': '' @ str_escape L (ae_id e)
                     @ '', '' @ str_escape L ''kind'' @ '': '' @ str_escape L (ae_kind e)
                     @ '', '' @ str_escape L ''payload'' @ '': ''
                         @ json_dumps L (PDict (ae_payload e))
                     @ '', '' @ str_escape L ''prev_hash'' @ '': ''
                         @ str_escape L (ae_prev_hash e)
                     @ '', '' @ str_escape L ''tick'' @ '': '' @ int_repr (ae_tick e)
                     @ '', '' @ str_escape L ''ts'' @ '': '' @ float_repr L (ae_ts e) @ ''}'')
              \<and> (\<forall>raw. same_content (PDict (entry_raw e)) (PDict raw) \<longrightarrow>
                     sha256 L raw = ae_hash e)
              \<and> (\<forall>q. same_content (PDict (ae_payload e)) (PDict q) \<longrightarrow>
                     sha256 L (entry_raw (e\<lparr>ae_payload := q\<rparr>)) = ae_hash e))
       \<and> (\<forall>e \<in> set (audit_chain self). \<forall>e' \<in> set (audit_chain self).
              entry_raw e = entry_raw e' \<longrightarrow> ae_hash e = ae_hash e')
       \<and> prev_hash self = (if audit_chain self = [] then replicate 64 (CHR ''0'')
                            else ae_hash (last (audit_chain self)))"
proof -
  note I = reachable_ledger_inv [OF assms, unfolded ledger_inv_def]
  have l: "linked genesis_hash (audit_chain self)" using I by simp
  have h: "\<forall>e \<in> set (audit_chain self). ae_hash e = sha256 L (entry_raw e)" using I by simp
  have p: "prev_hash self = last_hash genesis_hash (audit_chain self)" using I by simp
  have a: "(audit_chain self \<noteq> [] \<longrightarrow>
            ae_prev_hash (hd (audit_chain self)) = replicate 64 (CHR ''0''))
       \<and> (\<forall>i. Suc i < length (audit_chain self) \<longrightarrow>
              ae_prev_hash (audit_chain self ! Suc i) = ae_hash (audit_chain self ! i))"
    using linked_index [OF l] by (simp add: genesis_hash_def)
  have b: "\<forall>e \<in> set (audit_chain self).
              ae_hash e = sha256_hexdigest L (json_dumps L (PDict
                 [(''id'', PStr (ae_id e)), (''tick'', PInt (ae_tick e)), (''ts'', PFloat (ae_ts e)),
                  (''kind'', PStr (ae_kind e)), (''payload'', PDict (ae_payload e)),
                  (''prev_hash'', PStr (ae_prev_hash e))]))
              \<and> ae_hash e = sha256_hexdigest L
                   (''{'' @ str_escape L ''id'' @ '': '' @ str_escape L (ae_id e)
                     @ '', '' @ str_escape L ''kind'' @ '': '' @ str_escape L (ae_kind e)
                     @ '', '' @ str_escape L ''payload'' @ '': ''
                         @ json_dumps L (PDict (ae_payload e))
                     @ '', '' @ str_escape L ''prev_hash'' @ '': ''
                         @ str_escape L (ae_prev_hash e)
                     @ '', '' @ str_escape L ''tick'' @ '': '' @ int_repr (ae_tick e)
                     @ '', '' @ str_escape L ''ts'' @ '': '' @ float_repr L (ae_ts e) @ ''}'')
              \<and> (\<forall>raw. same_content (PDict (entry_raw e)) (PDict raw) \<longrightarrow>
                     sha256 L raw = ae_hash e)
              \<and> (\<forall>q. same_content (PDict (ae_payload e)) (PDict q) \<longrightarrow>
                     sha256 L (entry_raw (e\<lparr>ae_payload := q\<rparr>)) = ae_hash e)"
  proof
    fix e assume e: "e \<in> set (audit_chain self)"
    have 1: "ae_hash e = sha256 L (entry_raw e)" using h e by blast
    have 2: "sha256 L raw = ae_hash e" if "same_content (PDict (entry_raw e)) (PDict raw)" for raw
      using same_content_dumps [OF that, of L] 1 by (simp add: sha256_def)
    have 3: "sha256 L (entry_raw (e\<lparr>ae_payload := q\<rparr>)) = ae_hash e"
      if "same_content (PDict (ae_payload e)) (PDict q)" for q
      using same_content_payload [OF that, of L] 1 by simp
    have 4: "ae_hash e = sha256_hexdigest L (json_dumps L (PDict
                 [(''id'', PStr (ae_id e)), (''tick'', PInt (ae_tick e)), (''ts'', PFloat (ae_ts e)),
                  (''kind'', PStr (ae_kind e)), (''payload'', PDict (ae_payload e)),
                  (''prev_hash'', PStr (ae_prev_hash e))]))"
      using 1 unfolding sha256_def entry_raw_def .
    have 5: "ae_hash e = sha256_hexdigest L
                   (''{'' @ str_escape L ''id'' @ '': '' @ str_escape L (ae_id e)
                     @ '', '' @ str_escape L ''kind'' @ '': '' @ str_escape L (ae_kind e)
                     @ '', '' @ str_escape L ''payload'' @ '': ''
                         @ json_dumps L (PDict (ae_payload e))
                     @ '', '' @ str_escape L ''prev_hash'' @ '': ''
                         @ str_escape L (ae_prev_hash e)
                     @ '', '' @ str_escape L ''tick'' @ '': '' @ int_repr (ae_tick e)
                     @ '', '' @ str_escape L ''ts'' @ '': '' @ float_repr L (ae_ts e) @ ''}'')"
      using 1 unfolding sha256_def entry_text .
    show "ae_hash e = sha256_hexdigest L (json_dumps L (PDict
                 [(''id'', PStr (ae_id e)), (''tick'', PInt (ae_tick e)), (''ts'', PFloat (ae_ts e)),
                  (''kind'', PStr (ae_kind e)), (''payload'', PDict (ae_payload e)),
                  (''prev_hash'', PStr (ae_prev_hash e))]))
              \<and> ae_hash e = sha256_hexdigest L
                   (''{'' @ str_escape L ''id'' @ '': '' @ str_escape L (ae_id e)
                     @ '', '' @ str_escape L ''kind'' @ '': '' @ str_escape L (ae_kind e)
                     @ '', '' @ str_escape L ''payload'' @ '': ''
                         @ json_dumps L (PDict (ae_payload e))
                     @ '', '' @ str_escape L ''prev_hash'' @ '': ''
                         @ str_escape L (ae_prev_hash e)
                     @ '', '' @ str_escape L ''tick'' @ '': '' @ int_repr (ae_tick e)
                     @ '', '' @ str_escape L ''ts'' @ '': '' @ float_repr L (ae_ts e) @ ''}'')
              \<and> (\<forall>raw. same_content (PDict (entry_raw e)) (PDict raw) \<longrightarrow>
                     sha256 L raw = ae_hash e)
              \<and> (\<forall>q. same_content (PDict (ae_payload e)) (PDict q) \<longrightarrow>
                     sha256 L (entry_raw (e\<lparr>ae_payload := q\<rparr>)) = ae_hash e)"
      using 2 3 4 5 by blast
  qed
  have c: "\<forall>e \<in> set (audit_chain self). \<forall>e' \<in> set (audit_chain self).
              entry_raw e = entry_raw e' \<longrightarrow> ae_hash e = ae_hash e'"
    using h by simp
  have d: "prev_hash self = (if audit_chain self = [] then replicate 64 (CHR ''0'')
                            else ae_hash (last (audit_chain self)))"
    using p by (simp add: last_hash_def genesis_hash_def)
  show ?thesis using a b c d by blast
qed

lemma default_run1_chain:
  "length (audit_chain (fst (snd default_run1))) = 6"
proof -
  obtain tr1 where f1: "fst default_run1 = Inr tr1"
    using default_runs(1) by (cases "fst default_run1") auto
  have c1: "step sample_lib (default_kernel sample_lib (Some main_cfg)) sample_env
     = (Inr tr1, fst (snd default_run1), snd (snd default_run1))"
    using default_run1_collapse by (simp add: f1)
  show ?thesis
    using step_entries_length [OF c1] by (simp add: default_kernel_fields)
qed

lemma rekeyed_same_content: "same_content (PDict keyed_payload) (PDict rekeyed_payload)"
proof -
  let ?O1 = "[(''system_load'', PInt 4), (''env_stress'', PInt 3), (''comms_quality'', PInt 7)]"
  let ?O2 = "[(''comms_quality'', PInt 7), (''system_load'', PInt 4), (''env_stress'', PInt 3)]"
  let ?al = "PList [PStr ''a'', PNone]"
  have o: "same_content (PDict ?O1) (PDict ?O2)"
    by (rule sc_dict [where zs = ?O1]) (simp_all add: sc_refl)
  have s: "same_content (PDict [(''ops'', PDict ?O1), (''alerts'', ?al)])
                        (PDict [(''alerts'', ?al), (''ops'', PDict ?O2)])"
    by (rule sc_dict [where zs = "[(''ops'', PDict ?O2), (''alerts'', ?al)]"])
      (simp_all add: sc_refl o)
  show ?thesis
    unfolding keyed_payload_def rekeyed_payload_def
    by (rule sc_dict [where zs = "[(''streams'', PDict [(''alerts'', ?al), (''ops'', PDict ?O2)])]"])
      (simp_all add: s)
qed

lemma keyed_chain_text:
  "json_dumps sample_lib (PDict (entry_raw (keyed_chain ! 0))) =
     ''{\"id\": \"id-0\", \"kind\": \"frame\", \"payload\": {\"streams\": {\"alerts\": [\"a\", null], \"ops\": {\"comms_quality\": 7, \"env_stress\": 3, \"system_load\": 4}}}, \"prev_hash\": \"''
       @ replicate 64 (CHR ''0'') @ ''\", \"tick\": 0, \"ts\": 1000.0}''"
  by code_simp

lemma keyed_chain_eq:
  "\<exists>e. keyed_chain = [e] \<and> ae_payload e = keyed_payload"
proof -
  obtain e s' env' where a: "audit sample_lib ''frame'' keyed_payload
                              (default_kernel sample_lib None) sample_env = (e, s', env')"
    by (metis prod.collapse)
  note A = audit_eq [OF a]
  have "keyed_chain = [e]"
    by (simp add: keyed_chain_def a A(1) default_kernel_fields)
  then show ?thesis using A by blast
qed

lemma keyed_chain_reachable:
  "\<exists>self :: (nat \<Rightarrow> real) AutonomyKernel.
     reachable sample_lib self \<and> audit_chain self = keyed_chain"
proof -
  obtain e s' env' where a: "audit sample_lib ''frame'' keyed_payload
                              (default_kernel sample_lib None) sample_env = (e, s', env')"
    by (metis prod.collapse)
  have "reachable sample_lib s'"
    by (rule r_audit [OF default_kernel_reachable a])
  moreover have "audit_chain s' = keyed_chain"
    by (simp add: keyed_chain_def a)
  ultimately show ?thesis by blast
qed

theorem audit_chain_hash_linked_witness:
  "length (audit_chain (fst (snd default_run1))) = 6
   \<and> ae_prev_hash (audit_chain (fst (snd default_run1)) ! 0) = replicate 64 (CHR ''0'')
   \<and> ae_prev_hash (audit_chain (fst (snd default_run1)) ! 1)
       = ae_hash (audit_chain (fst (snd default_run1)) ! 0)
   \<and> ae_prev_hash (audit_chain (fst (snd default_run1)) ! 5)
       = ae_hash (audit_chain (fst (snd default_run1)) ! 4)
   \<and> ae_hash (audit_chain (fst (snd default_run1)) ! 5)
       = sha256 sample_lib (entry_raw (audit_chain (fst (snd default_run1)) ! 5))
   \<and> prev_hash (fst (snd default_run1)) = ae_hash (audit_chain (fst (snd default_run1)) ! 5)
   \<and> ae_hash (keyed_chain ! 0) = sha256_hexdigest sample_lib
        (''{\"id\": \"id-0\", \"kind\": \"frame\", \"payload\": {\"streams\": {\"alerts\": [\"a\", null], \"ops\": {\"comms_quality\": 7, \"env_stress\": 3, \"system_load\": 4}}}, \"prev_hash\": \"''
           @ replicate 64 (CHR ''0'') @ ''\", \"tick\": 0, \"ts\": 1000.0}'')
   \<and> sha256 sample_lib (entry_raw ((keyed_chain ! 0)\<lparr>ae_payload := rekeyed_payload\<rparr>))
       = ae_hash (keyed_chain ! 0)"
proof -
  let ?c = "audit_chain (fst (snd default_run1))"
  note len = default_run1_chain
  note T = audit_chain_hash_linked [OF default_runs(4)]
  have ne: "?c \<noteq> []" using len by auto
  have hd: "hd ?c = ?c ! 0" using ne by (simp add: hd_conv_nth)
  have la: "last ?c = ?c ! 5" using ne len by (simp add: last_conv_nth)
  have in5: "?c ! 5 \<in> set ?c" using len by simp
  have a: "ae_prev_hash (?c ! 0) = replicate 64 (CHR ''0'')"
    using T ne hd by simp
  have b: "ae_prev_hash (?c ! 1) = ae_hash (?c ! 0)" "ae_prev_hash (?c ! 5) = ae_hash (?c ! 4)"
    using T len
      conjunct1 [OF conjunct2 [OF T], rule_format, of 0]
      conjunct1 [OF conjunct2 [OF T], rule_format, of 4]
    by simp_all
  have c: "ae_hash (?c ! 5) = sha256 sample_lib (entry_raw (?c ! 5))"
    using T in5 unfolding sha256_def entry_raw_def by blast
  have d: "prev_hash (fst (snd default_run1)) = ae_hash (?c ! 5)"
    using T ne la by simp
  obtain self :: "(nat \<Rightarrow> real) AutonomyKernel"
    where r: "reachable sample_lib self" and k: "audit_chain self = keyed_chain"
    using keyed_chain_reachable by blast
  obtain e where ke: "keyed_chain = [e]" and pe: "ae_payload e = keyed_payload"
    using keyed_chain_eq by blast
  note K = audit_chain_hash_linked [OF r, unfolded k]
  have ein: "keyed_chain ! 0 \<in> set keyed_chain" by (simp add: ke)
  have pk: "ae_payload (keyed_chain ! 0) = keyed_payload" by (simp add: ke pe)
  have f: "ae_hash (keyed_chain ! 0) = sha256_hexdigest sample_lib
              (json_dumps sample_lib (PDict (entry_raw (keyed_chain ! 0))))"
    using K ein unfolding entry_raw_def by blast
  have g: "sha256 sample_lib (entry_raw ((keyed_chain ! 0)\<lparr>ae_payload := rekeyed_payload\<rparr>))
       = ae_hash (keyed_chain ! 0)"
    using K ein rekeyed_same_content unfolding pk [symmetric] by blast
  note f' = f [unfolded keyed_chain_text]
  show ?thesis
    by (intro conjI) (rule len a b c d f' g)+
qed

lemma verify_from_iff:
  "verify_from L prev es \<longleftrightarrow> linked prev es \<and> (\<forall>e \<in> set es. ae_hash e = sha256 L (entry_raw e))"
  by (induction es arbitrary: prev) auto

lemma verify_from_update:
  assumes "verify_from L prev es" "i < length es"
    and "sha256 L (entry_raw e') \<noteq> ae_hash e' \<or> ae_prev_hash e' \<noteq> ae_prev_hash (es ! i)"
  shows "\<not> verify_from L prev (es[i := e'])"
  using assms
proof (induction es arbitrary: prev i)
  case Nil
  then show ?case by simp
next
  case (Cons e es)
  show ?case
  proof (cases i)
    case 0
    then show ?thesis using Cons.prems by auto
  next
    case (Suc j)
    then show ?thesis using Cons.prems Cons.IH [of "ae_hash e" j] by auto
  qed
qed

lemma verify_from_nth:
  assumes "verify_from L prev es" "i < length es"
  shows "sha256 L (entry_raw (es ! i)) = ae_hash (es ! i)"
  using assms by (simp add: verify_from_iff)

lemma reachable_verify: "reachable L self \<Longrightarrow> verify L (audit_chain self)"
  using reachable_ledger_inv [of L self]
  by (simp add: verify_def verify_from_iff ledger_inv_def)

lemma verify_from_keep:
  assumes "verify_from L prev es" "i < length es"
    and "sha256 L (entry_raw e') = ae_hash e'" "ae_prev_hash e' = ae_prev_hash (es ! i)"
    and "ae_hash e' = ae_hash (es ! i)"
  shows "verify_from L prev (es[i := e'])"
  using assms
proof (induction es arbitrary: prev i)
  case Nil
  then show ?case by simp
next
  case (Cons e es)
  show ?case
  proof (cases i)
    case 0
    then show ?thesis using Cons.prems by auto
  next
    case (Suc j)
    then show ?thesis using Cons.prems Cons.IH [of "ae_hash e" j] by auto
  qed
qed

lemma payload_text_differs:
  "json_dumps L (PDict (entry_raw (e\<lparr>ae_payload := q\<rparr>))) = json_dumps L (PDict (entry_raw e))
     \<longleftrightarrow> json_dumps L (PDict q) = json_dumps L (PDict (ae_payload e))"
  by (simp only: entry_text) simp

text \<open>
  C2, as amended. \<open>verify\<close> accepts every chain that \<open>__init__\<close>, \<open>step\<close> and \<open>_audit\<close> can
  build. It rejects such a chain after the stored hash of one entry has been replaced by
  another value, and after the stored previous hash of one entry has been replaced by another
  value. After the payload of one entry has been replaced, it rejects the chain exactly when
  the hash recomputed for that entry differs from the stored one; with a digest that has no
  collisions, that is exactly when the sorted-key JSON text of the payload has changed. A new
  payload with the same JSON text is accepted under every digest.
\<close>

theorem ledger_verify_detects:
  assumes "reachable L self"
  shows "verify L (audit_chain self)
       \<and> (\<forall>i < length (audit_chain self).
            (\<forall>h. h \<noteq> ae_hash (audit_chain self ! i) \<longrightarrow>
                  \<not> verify L ((audit_chain self)[i := (audit_chain self ! i)\<lparr>ae_hash := h\<rparr>]))
          \<and> (\<forall>p. p \<noteq> ae_prev_hash (audit_chain self ! i) \<longrightarrow>
                  \<not> verify L ((audit_chain self)[i := (audit_chain self ! i)\<lparr>ae_prev_hash := p\<rparr>]))
          \<and> (\<forall>q. verify L ((audit_chain self)[i := (audit_chain self ! i)\<lparr>ae_payload := q\<rparr>])
                  \<longleftrightarrow> sha256 L (entry_raw ((audit_chain self ! i)\<lparr>ae_payload := q\<rparr>))
                        = ae_hash (audit_chain self ! i))
          \<and> (\<forall>q. inj (sha256_hexdigest L) \<longrightarrow>
                  (verify L ((audit_chain self)[i := (audit_chain self ! i)\<lparr>ae_payload := q\<rparr>])
                   \<longleftrightarrow> json_dumps L (PDict q)
                         = json_dumps L (PDict (ae_payload (audit_chain self ! i)))))
          \<and> (\<forall>q. json_dumps L (PDict q)
                     = json_dumps L (PDict (ae_payload (audit_chain self ! i))) \<longrightarrow>
                  verify L ((audit_chain self)[i := (audit_chain self ! i)\<lparr>ae_payload := q\<rparr>])))"
proof -
  let ?c = "audit_chain self"
  have v: "verify_from L genesis_hash ?c"
    using reachable_verify [OF assms] by (simp add: verify_def)
  have "(\<forall>h. h \<noteq> ae_hash (?c ! i) \<longrightarrow> \<not> verify L (?c[i := (?c ! i)\<lparr>ae_hash := h\<rparr>]))
      \<and> (\<forall>p. p \<noteq> ae_prev_hash (?c ! i) \<longrightarrow> \<not> verify L (?c[i := (?c ! i)\<lparr>ae_prev_hash := p\<rparr>]))
      \<and> (\<forall>q. verify L (?c[i := (?c ! i)\<lparr>ae_payload := q\<rparr>])
               \<longleftrightarrow> sha256 L (entry_raw ((?c ! i)\<lparr>ae_payload := q\<rparr>)) = ae_hash (?c ! i))
      \<and> (\<forall>q. inj (sha256_hexdigest L) \<longrightarrow>
               (verify L (?c[i := (?c ! i)\<lparr>ae_payload := q\<rparr>])
                \<longleftrightarrow> json_dumps L (PDict q) = json_dumps L (PDict (ae_payload (?c ! i)))))
      \<and> (\<forall>q. json_dumps L (PDict q) = json_dumps L (PDict (ae_payload (?c ! i))) \<longrightarrow>
               verify L (?c[i := (?c ! i)\<lparr>ae_payload := q\<rparr>]))"
    if i: "i < length ?c" for i
  proof -
    note n = verify_from_nth [OF v i]
    have raw_h: "entry_raw ((?c ! i)\<lparr>ae_hash := h\<rparr>) = entry_raw (?c ! i)" for h
      by (simp add: entry_raw_def)
    have 1: "\<not> verify L (?c[i := (?c ! i)\<lparr>ae_hash := h\<rparr>])" if "h \<noteq> ae_hash (?c ! i)" for h
      unfolding verify_def
      by (rule verify_from_update [OF v i]) (use that n raw_h in auto)
    have 2: "\<not> verify L (?c[i := (?c ! i)\<lparr>ae_prev_hash := p\<rparr>])"
      if "p \<noteq> ae_prev_hash (?c ! i)" for p
      unfolding verify_def
      by (rule verify_from_update [OF v i]) (use that in auto)
    have 3: "verify L (?c[i := (?c ! i)\<lparr>ae_payload := q\<rparr>])
               \<longleftrightarrow> sha256 L (entry_raw ((?c ! i)\<lparr>ae_payload := q\<rparr>)) = ae_hash (?c ! i)" for q
    proof
      assume a: "verify L (?c[i := (?c ! i)\<lparr>ae_payload := q\<rparr>])"
      show "sha256 L (entry_raw ((?c ! i)\<lparr>ae_payload := q\<rparr>)) = ae_hash (?c ! i)"
      proof (rule ccontr)
        assume "sha256 L (entry_raw ((?c ! i)\<lparr>ae_payload := q\<rparr>)) \<noteq> ae_hash (?c ! i)"
        then have "\<not> verify_from L genesis_hash (?c[i := (?c ! i)\<lparr>ae_payload := q\<rparr>])"
          by (intro verify_from_update [OF v i]) auto
        then show False using a by (simp add: verify_def)
      qed
    next
      assume "sha256 L (entry_raw ((?c ! i)\<lparr>ae_payload := q\<rparr>)) = ae_hash (?c ! i)"
      then show "verify L (?c[i := (?c ! i)\<lparr>ae_payload := q\<rparr>])"
        unfolding verify_def by (intro verify_from_keep [OF v i]) auto
    qed
    have t: "sha256 L (entry_raw ((?c ! i)\<lparr>ae_payload := q\<rparr>)) = ae_hash (?c ! i)"
      if "json_dumps L (PDict q) = json_dumps L (PDict (ae_payload (?c ! i)))" for q
      using that payload_text_differs [where L = L and e = "?c ! i" and q = q]
      unfolding n [symmetric] by (simp add: sha256_def del: json_dumps.simps)
    have 4: "verify L (?c[i := (?c ! i)\<lparr>ae_payload := q\<rparr>])
                \<longleftrightarrow> json_dumps L (PDict q) = json_dumps L (PDict (ae_payload (?c ! i)))"
      if inj: "inj (sha256_hexdigest L)" for q
    proof -
      have "sha256 L (entry_raw ((?c ! i)\<lparr>ae_payload := q\<rparr>)) = ae_hash (?c ! i)
          \<longleftrightarrow> json_dumps L (PDict (entry_raw ((?c ! i)\<lparr>ae_payload := q\<rparr>)))
                = json_dumps L (PDict (entry_raw (?c ! i)))"
        unfolding n [symmetric] using inj
        by (auto simp: sha256_def inj_def simp del: json_dumps.simps)
      then show ?thesis using 3 [of q] payload_text_differs [where L = L and e = "?c ! i" and q = q] by simp
    qed
    have 5: "verify L (?c[i := (?c ! i)\<lparr>ae_payload := q\<rparr>])"
      if "json_dumps L (PDict q) = json_dumps L (PDict (ae_payload (?c ! i)))" for q
      using 3 [of q] t [OF that] by simp
    show ?thesis using 1 2 3 4 5 by blast
  qed
  then show ?thesis using reachable_verify [OF assms] by blast
qed

lemma appended_chain_eq:
  "\<exists>e. appended_chain = [e] \<and> ae_payload e = listed_payload \<and> ae_kind e = ''frame''
      \<and> ae_prev_hash e = genesis_hash \<and> ae_hash e = sha256 sample_lib (entry_raw e)"
proof -
  obtain e s' env' where a: "audit sample_lib ''frame'' listed_payload
                              (default_kernel sample_lib None) sample_env = (e, s', env')"
    by (metis prod.collapse)
  note A = audit_eq [OF a]
  have "appended_chain = [e]"
    by (simp add: appended_chain_def a A(1) default_kernel_fields)
  moreover have "ae_prev_hash e = genesis_hash"
    using A(5) by (simp add: default_kernel_def AutonomyKernel_init_def)
  ultimately show ?thesis using A by blast
qed

lemma appended_chain_reachable:
  "\<exists>self :: (nat \<Rightarrow> real) AutonomyKernel.
     reachable sample_lib self \<and> audit_chain self = appended_chain"
proof -
  obtain e s' env' where a: "audit sample_lib ''frame'' listed_payload
                              (default_kernel sample_lib None) sample_env = (e, s', env')"
    by (metis prod.collapse)
  have "reachable sample_lib s'"
    by (rule r_audit [OF default_kernel_reachable a])
  moreover have "audit_chain s' = appended_chain"
    by (simp add: appended_chain_def a)
  ultimately show ?thesis by blast
qed

lemma tupled_same_digest:
  "ae_payload e = listed_payload \<Longrightarrow>
     sha256 L (entry_raw (e\<lparr>ae_payload := tupled_payload\<rparr>)) = sha256 L (entry_raw e)"
  by (simp add: sha256_def entry_raw_sorted tupled_payload_def listed_payload_def)

text \<open>
  C2 as stated fails: \<open>sha256\<close> hashes the JSON text of an entry, and JSON writes a tuple as
  it writes a list. A payload whose list has been replaced by the tuple of the same items is
  another payload with the same hash, and \<open>verify\<close> accepts the chain that holds it.
\<close>

theorem ledger_verify_misses_payload_change:
  "verify sample_lib tampered_chain
   \<and> ae_payload (tampered_chain ! 0) = tupled_payload
   \<and> ae_payload (appended_chain ! 0) = listed_payload
   \<and> tupled_payload \<noteq> listed_payload"
proof -
  obtain e where c: "appended_chain = [e]" and p: "ae_payload e = listed_payload"
    and g: "ae_prev_hash e = genesis_hash" and h: "ae_hash e = sha256 sample_lib (entry_raw e)"
    using appended_chain_eq by blast
  have t: "tampered_chain = [e\<lparr>ae_payload := tupled_payload\<rparr>]"
    by (simp add: tampered_chain_def c)
  have "verify sample_lib tampered_chain"
    using tupled_same_digest [OF p, of sample_lib] g h by (simp add: t verify_def)
  moreover have "tupled_payload \<noteq> listed_payload"
    by (simp add: tupled_payload_def listed_payload_def)
  ultimately show ?thesis using p by (simp add: t c)
qed

lemma plain_chain_eq:
  "\<exists>e. plain_chain = [e] \<and> ae_payload e = listed_payload
      \<and> ae_prev_hash e = genesis_hash \<and> ae_hash e = sha256 plain_lib (entry_raw e)"
proof -
  obtain e s' env' where a: "audit plain_lib ''frame'' listed_payload
                              (default_kernel plain_lib None) sample_env = (e, s', env')"
    by (metis prod.collapse)
  note A = audit_eq [OF a]
  have "plain_chain = [e]"
    by (simp add: plain_chain_def a A(1) default_kernel_fields)
  moreover have "ae_prev_hash e = genesis_hash"
    using A(5) by (simp add: default_kernel_def AutonomyKernel_init_def)
  ultimately show ?thesis using A by blast
qed

lemma plain_chain_reachable:
  "\<exists>self :: (nat \<Rightarrow> real) AutonomyKernel.
     reachable plain_lib self \<and> audit_chain self = plain_chain"
proof -
  obtain e s' env' where a: "audit plain_lib ''frame'' listed_payload
                              (default_kernel plain_lib None) sample_env = (e, s', env')"
    by (metis prod.collapse)
  have "reachable plain_lib s'"
    by (rule r_audit [OF default_kernel_reachable a])
  moreover have "audit_chain s' = plain_chain"
    by (simp add: plain_chain_def a)
  ultimately show ?thesis by blast
qed

lemma plain_payload_texts:
  "json_dumps plain_lib (PDict []) \<noteq> json_dumps plain_lib (PDict listed_payload)"
  "json_dumps plain_lib (PDict tupled_payload) = json_dumps plain_lib (PDict listed_payload)"
  by (simp_all add: listed_payload_def tupled_payload_def)

theorem ledger_verify_detects_witness:
  "verify plain_lib plain_chain
   \<and> \<not> verify plain_lib (plain_chain[0 := (plain_chain ! 0)\<lparr>ae_hash := ''0''\<rparr>])
   \<and> \<not> verify plain_lib (plain_chain[0 := (plain_chain ! 0)\<lparr>ae_prev_hash := ''0''\<rparr>])
   \<and> \<not> verify plain_lib (plain_chain[0 := (plain_chain ! 0)\<lparr>ae_payload := []\<rparr>])
   \<and> verify plain_lib (plain_chain[0 := (plain_chain ! 0)\<lparr>ae_payload := tupled_payload\<rparr>])"
proof -
  obtain self :: "(nat \<Rightarrow> real) AutonomyKernel"
    where r: "reachable plain_lib self" and c: "audit_chain self = plain_chain"
    using plain_chain_reachable by blast
  obtain e where ce: "plain_chain = [e]" and pe: "ae_payload e = listed_payload"
    and g: "ae_prev_hash e = genesis_hash" and he: "ae_hash e = sha256 plain_lib (entry_raw e)"
    using plain_chain_eq by blast
  have len: "0 < length plain_chain" by (simp add: ce)
  have "length ''0'' \<noteq> length genesis_hash"
    by (simp add: genesis_hash_def)
  then have "''0'' \<noteq> genesis_hash"
    by (metis (full_types))
  then have p: "''0'' \<noteq> ae_prev_hash (plain_chain ! 0)"
    by (simp add: ce g)
  have "ae_hash e = json_dumps plain_lib (PDict (entry_raw e))"
    by (simp add: he sha256_def plain_lib_def del: json_dumps.simps)
  then have h: "''0'' \<noteq> ae_hash (plain_chain ! 0)"
    by (simp add: ce entry_text)
  have i: "inj (sha256_hexdigest plain_lib)"
    by (simp add: plain_lib_def inj_def)
  have pk: "ae_payload (plain_chain ! 0) = listed_payload" by (simp add: ce pe)
  note T = ledger_verify_detects [OF r, unfolded c]
  have 1: "verify plain_lib plain_chain" using T by blast
  have 2: "\<not> verify plain_lib (plain_chain[0 := (plain_chain ! 0)\<lparr>ae_hash := ''0''\<rparr>])"
    using T len h by blast
  have 3: "\<not> verify plain_lib (plain_chain[0 := (plain_chain ! 0)\<lparr>ae_prev_hash := ''0''\<rparr>])"
    using T len p by blast
  have 4: "\<not> verify plain_lib (plain_chain[0 := (plain_chain ! 0)\<lparr>ae_payload := []\<rparr>])"
    using T len i plain_payload_texts(1) unfolding pk [symmetric] by blast
  have 5: "verify plain_lib (plain_chain[0 := (plain_chain ! 0)\<lparr>ae_payload := tupled_payload\<rparr>])"
    using T len plain_payload_texts(2) unfolding pk [symmetric] by blast
  show ?thesis using 1 2 3 4 5 by blast
qed

end
